theory Spec2Isabelle
  imports Complex_Main "HOL-Library.Multiset" "HOL-Library.Log_Nat"
begin

section \<open>JavaScript strings\<close>

text \<open>
  A JavaScript string is a sequence of UTF-16 code units and \<open>length\<close>, \<open>substring\<close>,
  \<open>includes\<close> and the regular expressions of the sources all work on code units. The model
  uses \<open>string\<close> with one \<open>char\<close> per code unit, which covers the code units below 256
  (Latin-1).
\<close>

definition is_space :: "char \<Rightarrow> bool" where
  \<comment> \<open>the regular expression class \<open>\s\<close>, on the code units below 256\<close>
  "is_space c = (of_char c \<in> {9, 10, 11, 12, 13, 32, 160 :: nat})"

definition is_digit :: "char \<Rightarrow> bool" where
  \<comment> \<open>the regular expression class \<open>\d\<close>\<close>
  "is_digit c = (48 \<le> (of_char c :: nat) \<and> (of_char c :: nat) \<le> 57)"

definition toLowerChar :: "char \<Rightarrow> char" where
  "toLowerChar c =
     (let n = of_char c :: nat in
      if (65 \<le> n \<and> n \<le> 90) \<or> (192 \<le> n \<and> n \<le> 222 \<and> n \<noteq> 215)
      then char_of (n + 32) else c)"

definition toLowerCase :: "string \<Rightarrow> string" where
  "toLowerCase s = map toLowerChar s"

definition substring0 :: "nat \<Rightarrow> string \<Rightarrow> string" where
  \<comment> \<open>\<open>s.substring(0, n)\<close>\<close>
  "substring0 n s = take n s"

fun starts_with :: "string \<Rightarrow> string \<Rightarrow> bool" where
  "starts_with s [] = True"
| "starts_with [] (p # ps) = False"
| "starts_with (c # cs) (p # ps) = (c = p \<and> starts_with cs ps)"

fun str_includes :: "string \<Rightarrow> string \<Rightarrow> bool" where
  \<comment> \<open>\<open>s.includes(p)\<close>: \<open>p\<close> occurs in \<open>s\<close> as a contiguous substring\<close>
  "str_includes [] p = (p = [])"
| "str_includes (c # cs) p = (starts_with (c # cs) p \<or> str_includes cs p)"

fun split_ws :: "string \<Rightarrow> string \<Rightarrow> string list"
  and split_ws_gap :: "string \<Rightarrow> string list" where
  \<comment> \<open>\<open>s.split(/\s+/)\<close>: \<open>split_ws cur rest\<close> is inside a piece, \<open>split_ws_gap\<close> inside a separator\<close>
  "split_ws cur [] = [cur]"
| "split_ws cur (c # cs) = (if is_space c then cur # split_ws_gap cs else split_ws (cur @ [c]) cs)"
| "split_ws_gap [] = [[]]"
| "split_ws_gap (c # cs) = (if is_space c then split_ws_gap cs else split_ws [c] cs)"

definition split_whitespace :: "string \<Rightarrow> string list" where
  "split_whitespace s = split_ws [] s"

definition trim :: "string \<Rightarrow> string" where
  "trim s = rev (dropWhile is_space (rev (dropWhile is_space s)))"

fun join :: "string \<Rightarrow> string list \<Rightarrow> string" where
  \<comment> \<open>\<open>xs.join(sep)\<close>\<close>
  "join sep [] = []"
| "join sep [x] = x"
| "join sep (x # y # ys) = x @ sep @ join sep (y # ys)"

definition slice0 :: "int \<Rightarrow> 'a list \<Rightarrow> 'a list" where
  \<comment> \<open>\<open>xs.slice(0, n)\<close>; a negative \<open>n\<close> counts from the end\<close>
  "slice0 n xs = (if 0 \<le> n then take (nat n) xs else take (length xs - nat (- n)) xs)"

section \<open>JavaScript numbers\<close>

text \<open>
  A finite JavaScript number is an IEEE double, which is a rational number. The arithmetic
  of the sources is modelled on \<open>rat\<close>: every operation computes the exact result and rounds
  it to the nearest double, to the even one of two nearest. The rounding is the one of the
  normal range (magnitudes from \<open>2 powi -1022\<close> up to \<open>2 powi 1024\<close>): all numbers of the sources
  are counts, seconds and scores far inside it. Counts and seconds are naturals below
  \<open>2 ^ 53\<close>, which doubles hold exactly.
\<close>

definition round_half_even :: "rat \<Rightarrow> int" where
  "round_half_even x =
     (if x - of_int \<lfloor>x\<rfloor> < 1 / 2 then \<lfloor>x\<rfloor>
      else if 1 / 2 < x - of_int \<lfloor>x\<rfloor> then \<lfloor>x\<rfloor> + 1
      else if even \<lfloor>x\<rfloor> then \<lfloor>x\<rfloor> else \<lfloor>x\<rfloor> + 1)"

definition exponent :: "rat \<Rightarrow> int" where
  \<comment> \<open>for a positive \<open>x\<close>, the \<open>e\<close> with \<open>2 powi e \<le> x < 2 powi (e + 1)\<close>\<close>
  "exponent x =
     (let e = bitlen (fst (quotient_of x)) - bitlen (snd (quotient_of x))
      in if 2 powi e \<le> x then e else e - 1)"

definition round_double :: "rat \<Rightarrow> rat" where
  \<comment> \<open>the nearest double: 53 significant bits\<close>
  "round_double x =
     (if x = 0 then 0
      else sgn x * of_int (round_half_even (\<bar>x\<bar> / 2 powi (exponent \<bar>x\<bar> - 52)))
             * 2 powi (exponent \<bar>x\<bar> - 52))"

definition js_mult :: "rat \<Rightarrow> rat \<Rightarrow> rat" where
  "js_mult x y = round_double (x * y)"

definition js_add :: "rat \<Rightarrow> rat \<Rightarrow> rat" where
  "js_add x y = round_double (x + y)"

definition js_sub :: "rat \<Rightarrow> rat \<Rightarrow> rat" where
  "js_sub x y = round_double (x - y)"

definition js_div :: "rat \<Rightarrow> rat \<Rightarrow> rat" where
  \<comment> \<open>for a divisor that is not 0\<close>
  "js_div x y = round_double (x / y)"

definition literal :: "rat \<Rightarrow> rat" where
  \<comment> \<open>a decimal literal of the source, such as \<open>0.7\<close>\<close>
  "literal x = round_double x"

section \<open>Hybrid search: fusion and ranking (src/src/lib/hybrid-search.ts)\<close>

datatype source = Semantic | Keyword | Hybrid

record result_metadata =
  videoId :: string
  videoTitle :: "string option"
  chunkIndex :: nat
  timestamp :: "string option"
  thumbnailUrl :: "string option"
  videoUrl :: "string option"

record SearchResult =
  result_text :: string
  score :: rat
  source :: source
  metadata :: result_metadata

definition same_prefix :: "SearchResult \<Rightarrow> SearchResult \<Rightarrow> bool" where
  \<comment> \<open>\<open>prev.text.substring(0, 100) === result.text.substring(0, 100)\<close>\<close>
  "same_prefix prev r = (substring0 100 (result_text prev) = substring0 100 (result_text r))"

definition uniqueResults :: "SearchResult list \<Rightarrow> SearchResult list" where
  \<comment> \<open>\<open>allResults.filter((result, index, array) => !array.slice(0, index).some(...))\<close>\<close>
  "uniqueResults allResults =
     map snd (filter (\<lambda>(index, r). \<not> list_ex (\<lambda>prev. same_prefix prev r) (take index allResults))
                     (enumerate 0 allResults))"

definition keywordMatches :: "string \<Rightarrow> SearchResult \<Rightarrow> nat" where
  "keywordMatches query r =
     (let queryWords = split_whitespace (toLowerCase query);
          textWords = toLowerCase (result_text r)
      in length (filter (\<lambda>word. length word > 2 \<and> str_includes textWords word) queryWords))"

definition weighted :: "SearchResult \<Rightarrow> rat" where
  \<comment> \<open>\<open>hybridScore *= 0.7\<close> for a semantic result, \<open>hybridScore *= 0.3\<close> for a keyword result\<close>
  "weighted r =
     (if source r = Semantic then js_mult (score r) (literal 0.7)
      else if source r = Keyword then js_mult (score r) (literal 0.3)
      else score r)"

definition boosted :: "rat \<Rightarrow> nat \<Rightarrow> rat" where
  \<comment> \<open>\<open>hybridScore *= (1 + keywordMatches * 0.1)\<close>\<close>
  "boosted w k = js_mult w (js_add 1 (js_mult (of_nat k) (literal 0.1)))"

definition hybridScore :: "string \<Rightarrow> SearchResult \<Rightarrow> rat" where
  "hybridScore query r =
     (let k = keywordMatches query r
      in if k > 0 then boosted (weighted r) k else weighted r)"

definition scoreResult :: "string \<Rightarrow> SearchResult \<Rightarrow> SearchResult" where
  "scoreResult query r = r\<lparr>score := hybridScore query r, source := Hybrid\<rparr>"

definition sort_desc :: "SearchResult list \<Rightarrow> SearchResult list" where
  \<comment> \<open>\<open>.sort((a, b) => b.score - a.score)\<close>: \<open>Array.prototype.sort\<close> is stable\<close>
  "sort_desc rs = sort_key (\<lambda>r. - score r) rs"

definition fuseAndRankResults ::
  "SearchResult list \<Rightarrow> SearchResult list \<Rightarrow> string \<Rightarrow> int \<Rightarrow> SearchResult list" where
  "fuseAndRankResults semanticResults keywordResults query limit =
     (let allResults = semanticResults @ keywordResults;
          unique = uniqueResults allResults;
          scoredResults = map (scoreResult query) unique
      in slice0 limit (sort_desc scoredResults))"



text \<open>
  The overlap count as the specification words it: the number of distinct query words of
  length above 2 contained in the candidate text. It is compared with \<open>keywordMatches\<close>.
\<close>

definition distinctKeywordMatches :: "string \<Rightarrow> SearchResult \<Rightarrow> nat" where
  "distinctKeywordMatches query r =
     (let queryWords = split_whitespace (toLowerCase query);
          textWords = toLowerCase (result_text r)
      in length (remdups (filter (\<lambda>word. length word > 2 \<and> str_includes textWords word) queryWords)))"

definition claimedHybridScore :: "string \<Rightarrow> SearchResult \<Rightarrow> rat" where
  \<comment> \<open>the score with the overlap count of the specification\<close>
  "claimedHybridScore query r =
     (let k = distinctKeywordMatches query r
      in if k > 0 then boosted (weighted r) k else weighted r)"

text \<open>Example data: search results and two corpora of ten chunks.\<close>

definition mk_result :: "string \<Rightarrow> rat \<Rightarrow> source \<Rightarrow> SearchResult" where
  "mk_result t s src =
     \<lparr>result_text = t, score = s, source = src,
      metadata = \<lparr>videoId = ''v1'', videoTitle = None, chunkIndex = 0,
                  timestamp = None, thumbnailUrl = None, videoUrl = None\<rparr>\<rparr>"



section \<open>Timestamp matching (src/unnamed/part_001)\<close>

record TimestampSegment =
  segment_text :: string
  timestampDisplay :: string
  timestampSeconds :: nat
  endSeconds :: nat

text \<open>
  A JavaScript number that is the result of the proportional positioning: a non-negative
  integer, or what the division by a zero \<open>totalChunks\<close> leaves. The segment times are
  whole seconds.
\<close>

datatype jsnumber = Num nat | NaN | Infinity

record TimestampMatch =
  startTime :: jsnumber
  endTime :: jsnumber
  matched :: bool
  matchDisplay :: "string option"

definition match_timestamp :: "string \<Rightarrow> string option" where
  \<comment> \<open>one match of \<open>/\d+:\d+/\<close> at the start of the string: the rest after the match\<close>
  "match_timestamp s =
     (let rest = dropWhile is_digit s in
      if takeWhile is_digit s \<noteq> [] \<and> rest \<noteq> [] \<and> hd rest = CHR '':''
         \<and> takeWhile is_digit (tl rest) \<noteq> []
      then Some (dropWhile is_digit (tl rest)) else None)"

function remove_timestamps :: "string \<Rightarrow> string" where
  \<comment> \<open>\<open>s.replace(/\d+:\d+/g, '')\<close>: leftmost matches, each as long as possible\<close>
  "remove_timestamps [] = []"
| "remove_timestamps (c # cs) =
     (case match_timestamp (c # cs) of
        Some rest \<Rightarrow> remove_timestamps rest
      | None \<Rightarrow> c # remove_timestamps cs)"
  by pat_completeness auto
termination
proof (relation "measure length")
  show "wf (measure length)" by simp
next
  fix c :: char and cs rest :: string
  assume m: "match_timestamp (c # cs) = Some rest"
  let ?r = "dropWhile is_digit (c # cs)"
  from m have ne: "?r \<noteq> []" and rest: "rest = dropWhile is_digit (tl ?r)"
    by (auto simp: match_timestamp_def Let_def split: if_splits)
  have "length rest \<le> length (tl ?r)" unfolding rest by (rule length_dropWhile_le)
  also have "\<dots> < length ?r" using ne by (cases ?r) auto
  also have "\<dots> \<le> length (c # cs)" by (rule length_dropWhile_le)
  finally show "(rest, c # cs) \<in> measure length" by simp
next
  fix c :: char and cs :: string
  show "(cs, c # cs) \<in> measure length" by simp
qed

definition fingerprint_words :: "string \<Rightarrow> string" where
  \<comment> \<open>\<open>.split(/\s+/).filter(w => w.length > 2).slice(0, 20).join(' ')\<close>\<close>
  "fingerprint_words s = join '' '' (take 20 (filter (\<lambda>w. length w > 2) (split_whitespace s)))"

definition segmentFingerprint :: "string \<Rightarrow> string" where
  \<comment> \<open>the fingerprint computed in \<open>preprocessTimestampSegments\<close>\<close>
  "segmentFingerprint t = fingerprint_words (toLowerCase (trim (remove_timestamps t)))"

definition chunkFingerprint :: "string \<Rightarrow> string" where
  "chunkFingerprint t = fingerprint_words (toLowerCase t)"

definition preprocessTimestampSegments :: "TimestampSegment list \<Rightarrow> (TimestampSegment \<times> string) list" where
  "preprocessTimestampSegments segments = map (\<lambda>seg. (seg, segmentFingerprint (segment_text seg))) segments"

definition fingerprints_match :: "string \<Rightarrow> string \<Rightarrow> bool" where
  \<comment> \<open>\<open>chunkIncludesSegment || segmentIncludesChunk\<close>\<close>
  "fingerprints_match chunkFp segmentFp =
     (str_includes chunkFp (substring0 50 segmentFp) \<or> str_includes segmentFp (substring0 50 chunkFp))"

fun find_matching_segment :: "string \<Rightarrow> (TimestampSegment \<times> string) list \<Rightarrow> TimestampSegment option" where
  \<comment> \<open>the \<open>for\<close> loop with its \<open>break\<close>\<close>
  "find_matching_segment chunkFp [] = None"
| "find_matching_segment chunkFp ((seg, segmentFp) # rest) =
     (if fingerprints_match chunkFp segmentFp then Some seg
      else find_matching_segment chunkFp rest)"

definition proportional :: "nat \<Rightarrow> nat \<Rightarrow> nat \<Rightarrow> jsnumber \<times> jsnumber" where
  \<comment> \<open>\<open>Math.floor(chunkPosition * totalDuration)\<close> and
      \<open>Math.floor((chunkPosition + (1 / totalChunks)) * totalDuration)\<close>\<close>
  "proportional chunkIdx totalChunks totalDuration =
     (if totalChunks = 0
      then (if chunkIdx = 0 \<or> totalDuration = 0 then (NaN, NaN) else (Infinity, Infinity))
      else (let chunkPosition = js_div (of_nat chunkIdx) (of_nat totalChunks) in
            (Num (nat \<lfloor>js_mult chunkPosition (of_nat totalDuration)\<rfloor>),
             Num (nat \<lfloor>js_mult (js_add chunkPosition (js_div 1 (of_nat totalChunks)))
                                (of_nat totalDuration)\<rfloor>))))"

definition claimed_endTime :: "nat \<Rightarrow> nat \<Rightarrow> nat \<Rightarrow> nat" where
  \<comment> \<open>the end time as the specification writes it:
      \<open>floor(((chunkIndex + 1) / totalChunks) * totalDuration)\<close>\<close>
  "claimed_endTime chunkIdx totalChunks totalDuration =
     nat \<lfloor>js_mult (js_div (of_nat (chunkIdx + 1)) (of_nat totalChunks)) (of_nat totalDuration)\<rfloor>"

definition matchChunkToTimestamp ::
  "string \<Rightarrow> TimestampSegment list \<Rightarrow> nat \<Rightarrow> nat \<Rightarrow> TimestampMatch" where
  "matchChunkToTimestamp chunkText segments chunkIdx totalChunks =
     (if segments = [] then
        \<lparr>startTime = Num 0, endTime = Num 0, matched = False, matchDisplay = None\<rparr>
      else
        (case find_matching_segment (chunkFingerprint chunkText) (preprocessTimestampSegments segments) of
           Some matchingSegment \<Rightarrow>
             \<lparr>startTime = Num (timestampSeconds matchingSegment),
              endTime = Num (endSeconds matchingSegment),
              matched = True,
              matchDisplay = Some (timestampDisplay matchingSegment)\<rparr>
         | None \<Rightarrow>
             (let totalDuration = endSeconds (last segments);
                  (start, end) = proportional chunkIdx totalChunks totalDuration
              in \<lparr>startTime = start, endTime = end, matched = False, matchDisplay = None\<rparr>)))"

text \<open>Example data: subtitle segments.\<close>

definition mk_segment :: "string \<Rightarrow> nat \<Rightarrow> nat \<Rightarrow> TimestampSegment" where
  "mk_segment t s e = \<lparr>segment_text = t, timestampDisplay = ''0:00'', timestampSeconds = s, endSeconds = e\<rparr>"

definition first_match_index :: "string \<Rightarrow> TimestampSegment list \<Rightarrow> nat" where
  \<comment> \<open>the position of the first segment that the loop accepts; the length of the list if none\<close>
  "first_match_index chunkText segments =
     length (takeWhile (\<lambda>seg. \<not> fingerprints_match (chunkFingerprint chunkText)
                                   (segmentFingerprint (segment_text seg))) segments)"

definition example_segments :: "TimestampSegment list" where
  "example_segments = [mk_segment ''intro words here'' 0 10, mk_segment ''Welcome back everyone'' 10 20]"

section \<open>Chunking (chunkText, in src/src/lib/rag.ts)\<close>

definition estimateTokens :: "string \<Rightarrow> nat" where
  \<comment> \<open>\<open>Math.ceil(text.length / 4)\<close>; a quarter of a length is a double, nothing is rounded\<close>
  "estimateTokens t = nat \<lceil>(of_nat (length t) :: rat) / 4\<rceil>"

text \<open>
  \<open>s.split(re)\<close> for a regular expression that matches at least one character: the matcher
  is tried at every position from the left; it tells how many characters a match takes
  after the first one.
\<close>

fun split_by :: "(string \<Rightarrow> nat option) \<Rightarrow> string \<Rightarrow> string \<Rightarrow> string list" where
  "split_by m cur [] = [cur]"
| "split_by m cur (c # cs) =
     (case m (c # cs) of
        Some n \<Rightarrow> cur # split_by m [] (drop n cs)
      | None \<Rightarrow> split_by m (cur @ [c]) cs)"

definition is_newline :: "char \<Rightarrow> bool" where
  \<comment> \<open>the class \<open>[\n\r]\<close>\<close>
  "is_newline c = (c = CHR 0x0A \<or> c = CHR 0x0D)"

definition sentence_separator :: "string \<Rightarrow> nat option" where
  \<comment> \<open>\<open>/[.!?;]\s+|[\n\r]+/\<close> at the start of the string\<close>
  "sentence_separator s =
     (case s of
        [] \<Rightarrow> None
      | c # cs \<Rightarrow>
          if c \<in> {CHR ''.'', CHR ''!'', CHR ''?'', CHR '';''} \<and> takeWhile is_space cs \<noteq> []
          then Some (length (takeWhile is_space cs))
          else if is_newline c then Some (length (takeWhile is_newline cs))
          else None)"

definition paragraph_separator :: "string \<Rightarrow> nat option" where
  \<comment> \<open>\<open>/\n\s*\n/\<close> at the start of the string: the match ends at the last line feed of
      the whitespace that follows the first one\<close>
  "paragraph_separator s =
     (case s of
        [] \<Rightarrow> None
      | c # cs \<Rightarrow>
          (let ws = takeWhile is_space cs in
           if c = CHR 0x0A \<and> CHR 0x0A \<in> set ws
           then Some (length ws - length (takeWhile (\<lambda>x. x \<noteq> CHR 0x0A) (rev ws)))
           else None))"

definition usable :: "string list \<Rightarrow> string list" where
  \<comment> \<open>\<open>.filter(s => s.trim().length > 10)\<close>\<close>
  "usable pieces = filter (\<lambda>s. length (trim s) > 10) pieces"

partial_function (option) word_windows ::
  "string list \<Rightarrow> nat \<Rightarrow> nat \<Rightarrow> nat \<Rightarrow> string list \<Rightarrow> string list option" where
  \<comment> \<open>\<open>for (let i = 0; i < words.length; i += wordsPerChunk - overlapWords)\<close>; the loop
      does not end when the step is 0\<close>
  "word_windows words wordsPerChunk step i sentences =
     (if i < length words
      then word_windows words wordsPerChunk step (i + step)
             (if length (join '' '' (take wordsPerChunk (drop i words))) > 50
              then sentences @ [join '' '' (take wordsPerChunk (drop i words))]
              else sentences)
      else Some sentences)"

declare word_windows.simps [code]

definition chunk_sentences :: "string \<Rightarrow> nat \<Rightarrow> string list option" where
  \<comment> \<open>the sentences that \<open>chunkText\<close> accumulates: sentence split, paragraph fallback,
      word-window fallback\<close>
  "chunk_sentences t maxTokens =
     (let sentences = usable (split_by sentence_separator [] t);
          sentences = (if length sentences \<le> 2 then usable (split_by paragraph_separator [] t)
                       else sentences)
      in if length sentences \<le> 1
         then (let words = split_whitespace t;
                   wordsPerChunk = nat \<lfloor>js_mult (of_nat maxTokens) (literal 0.7)\<rfloor>;
                   overlapWords = nat \<lfloor>js_mult (of_nat wordsPerChunk) (literal 0.1)\<rfloor>
               in word_windows words wordsPerChunk (wordsPerChunk - overlapWords) 0 [])
         else Some sentences)"

definition add_sentence :: "nat \<Rightarrow> string list \<times> string \<Rightarrow> string \<Rightarrow> string list \<times> string" where
  \<comment> \<open>the body of the accumulation loop on the state \<open>(chunks, currentChunk)\<close>\<close>
  "add_sentence maxTokens state sentence =
     (let (chunks, currentChunk) = state;
          testChunk = (if currentChunk \<noteq> [] then currentChunk @ '' '' @ trim sentence
                       else trim sentence);
          estimatedTokens = estimateTokens testChunk;
          targetChunkTokens = js_mult (of_nat maxTokens) (literal 0.8)
      in if of_nat estimatedTokens < targetChunkTokens \<and> length testChunk < 2500
         then (chunks, testChunk)
         else ((if length currentChunk > 100 then chunks @ [currentChunk] else chunks),
               trim sentence))"

definition accumulate :: "nat \<Rightarrow> string list \<Rightarrow> string list" where
  "accumulate maxTokens sentences =
     (let (chunks, currentChunk) = foldl (add_sentence maxTokens) ([], []) sentences
      in if length currentChunk > 100 then chunks @ [currentChunk] else chunks)"

definition chunkText :: "string \<Rightarrow> nat \<Rightarrow> string list option" where
  \<comment> \<open>\<open>None\<close>: the call does not return\<close>
  "chunkText t maxTokens =
     (if length t < 50 then Some []
      else map_option (accumulate maxTokens) (chunk_sentences t maxTokens))"






section \<open>Storing chunks (src/src/lib/pinecone.ts and src/src/lib/rag.ts)\<close>

text \<open>
  The vector index and the document collection are external stores. The index is modelled
  as a map from record ids to records, \<open>upsert\<close> writing at the id; the collection
  \<open>transcript_chunks\<close> as the list of its documents, \<open>insertMany\<close> appending to it
  (\<open>ensureIndexes\<close> creates no unique index on it). Calls to the providers are taken to
  succeed; the clock is a parameter.
\<close>

function show_nat :: "nat \<Rightarrow> string" where
  \<comment> \<open>a number inside a template string\<close>
  "show_nat n = (if n < 10 then [char_of (48 + n)] else show_nat (n div 10) @ [char_of (48 + n mod 10)])"
  by pat_completeness auto
termination
  by (relation "measure id") auto

declare show_nat.simps [simp del]

record Document =
  pageContent :: string
  doc_startTime :: "nat option"
  doc_endTime :: "nat option"

record EmbeddedChunk =
  chunk_text :: string
  embedding :: "real list"
  chunk_index :: nat
  chunk_videoTitle :: "string option"
  chunk_startTime :: "nat option"
  chunk_endTime :: "nat option"

record VectorRecord =
  vector_id :: string
  vector_values :: "real list"
  vector_creatorId :: string
  vector_videoId :: string
  vector_chunkIndex :: nat
  vector_text :: string
  vector_videoTitle :: string
  vector_startTime :: nat
  vector_endTime :: nat
  vector_createdAt :: nat

record TranscriptChunkDoc =
  doc_creatorId :: string
  doc_videoId :: string
  doc_chunkIndex :: nat
  doc_text :: string
  doc_videoTitle :: "string option"
  doc_videoUrl :: "string option"
  doc_thumbnailUrl :: "string option"
  doc_start :: jsnumber
  doc_end :: jsnumber
  doc_createdAt :: nat

record stores =
  pinecone :: "string \<rightharpoonup> VectorRecord"
  transcript_chunks :: "TranscriptChunkDoc list"

definition vectorId :: "string \<Rightarrow> string \<Rightarrow> nat \<Rightarrow> string" where
  \<comment> \<open>\<open>`${creatorId}_${videoId}_${chunk.chunkIndex}`\<close>\<close>
  "vectorId creator video idx = creator @ ''_'' @ video @ ''_'' @ show_nat idx"

definition toVector :: "nat \<Rightarrow> string \<Rightarrow> string \<Rightarrow> EmbeddedChunk \<Rightarrow> VectorRecord" where
  "toVector now creator video chunk =
     \<lparr>vector_id = vectorId creator video (chunk_index chunk),
      vector_values = embedding chunk,
      vector_creatorId = creator,
      vector_videoId = video,
      vector_chunkIndex = chunk_index chunk,
      vector_text = take 5000 (chunk_text chunk),
      vector_videoTitle = (case chunk_videoTitle chunk of None \<Rightarrow> [] | Some t \<Rightarrow> t),
      vector_startTime = (case chunk_startTime chunk of None \<Rightarrow> 0 | Some s \<Rightarrow> s),
      vector_endTime = (case chunk_endTime chunk of None \<Rightarrow> 0 | Some e \<Rightarrow> e),
      vector_createdAt = now\<rparr>"

fun batches :: "'a list \<Rightarrow> 'a list list" where
  \<comment> \<open>\<open>for (let i = 0; i < vectors.length; i += batchSize)\<close> with \<open>batchSize = 100\<close>\<close>
  "batches [] = []"
| "batches (x # xs) = take 100 (x # xs) # batches (drop 99 xs)"

definition upsert :: "(string \<rightharpoonup> VectorRecord) \<Rightarrow> VectorRecord list \<Rightarrow> (string \<rightharpoonup> VectorRecord)" where
  \<comment> \<open>\<open>index.upsert(batch)\<close>\<close>
  "upsert index batch = foldl (\<lambda>m v. m(vector_id v \<mapsto> v)) index batch"

definition storeToPinecone ::
  "nat \<Rightarrow> string \<Rightarrow> string \<Rightarrow> EmbeddedChunk list \<Rightarrow> (string \<rightharpoonup> VectorRecord) \<Rightarrow> (string \<rightharpoonup> VectorRecord)" where
  \<comment> \<open>\<open>storeTranscriptChunks\<close> of pinecone.ts\<close>
  "storeToPinecone now creator video chunks index =
     (if chunks = [] then index
      else foldl upsert index (batches (map (toVector now creator video) chunks)))"

fun embedChunks :: "(string \<Rightarrow> real list) \<Rightarrow> string option \<Rightarrow> nat \<Rightarrow> Document list \<Rightarrow> string + EmbeddedChunk list" where
  \<comment> \<open>the embedding loop, from chunk number \<open>i\<close> on; an empty embedding is an error\<close>
  "embedChunks createEmbedding title i [] = Inr []"
| "embedChunks createEmbedding title i (d # ds) =
     (if pageContent d = [] then embedChunks createEmbedding title (i + 1) ds
      else if createEmbedding (pageContent d) = []
      then Inl (''Embedding creation failed for chunk '' @ show_nat i
                 @ '': Failed to create embedding for chunk '' @ show_nat i)
      else (case embedChunks createEmbedding title (i + 1) ds of
              Inl e \<Rightarrow> Inl e
            | Inr rest \<Rightarrow>
                Inr (\<lparr>chunk_text = pageContent d, embedding = createEmbedding (pageContent d),
                      chunk_index = i, chunk_videoTitle = title,
                      chunk_startTime = doc_startTime d, chunk_endTime = doc_endTime d\<rparr> # rest)))"

definition toDocument ::
  "nat \<Rightarrow> string \<Rightarrow> string \<Rightarrow> string option \<Rightarrow> string option \<Rightarrow> string option
   \<Rightarrow> TimestampSegment list \<Rightarrow> nat \<Rightarrow> EmbeddedChunk \<Rightarrow> TranscriptChunkDoc" where
  "toDocument now creator video title url thumbnail segments totalChunks chunk =
     (let timestampMatch = matchChunkToTimestamp (chunk_text chunk) segments (chunk_index chunk) totalChunks
      in \<lparr>doc_creatorId = creator, doc_videoId = video, doc_chunkIndex = chunk_index chunk,
          doc_text = chunk_text chunk, doc_videoTitle = title, doc_videoUrl = url,
          doc_thumbnailUrl = thumbnail,
          doc_start = startTime timestampMatch, doc_end = endTime timestampMatch,
          doc_createdAt = now\<rparr>)"

definition storeTranscriptChunks ::
  "(string \<Rightarrow> real list) \<Rightarrow> nat \<Rightarrow> string \<Rightarrow> string \<Rightarrow> Document list \<Rightarrow> string option
   \<Rightarrow> string option \<Rightarrow> string option \<Rightarrow> TimestampSegment list \<Rightarrow> stores \<Rightarrow> string + stores" where
  \<comment> \<open>\<open>storeTranscriptChunks\<close> of rag.ts on LangChain documents, as the ingestion job calls it\<close>
  "storeTranscriptChunks createEmbedding now creator video chunks title url thumbnail segments s =
     (if chunks = [] then Inl ''No chunks provided for storage''
      else (case embedChunks createEmbedding title 0 chunks of
              Inl e \<Rightarrow> Inl e
            | Inr chunksWithEmbeddings \<Rightarrow>
                if chunksWithEmbeddings = [] then Inl ''No valid embeddings created from chunks''
                else Inr \<lparr>pinecone = storeToPinecone now creator video chunksWithEmbeddings (pinecone s),
                          transcript_chunks = transcript_chunks s
                            @ map (toDocument now creator video title url thumbnail segments
                                     (length chunksWithEmbeddings)) chunksWithEmbeddings\<rparr>))"

definition chunk_identity :: "TranscriptChunkDoc \<Rightarrow> string \<times> string \<times> nat" where
  \<comment> \<open>the identity of a chunk: creator, video and chunk index\<close>
  "chunk_identity d = (doc_creatorId d, doc_videoId d, doc_chunkIndex d)"

text \<open>Example data: one video of two chunks, and an embedding provider.\<close>

definition example_documents :: "Document list" where
  "example_documents =
     [\<lparr>pageContent = ''welcome back everyone'', doc_startTime = Some 10, doc_endTime = Some 20\<rparr>,
      \<lparr>pageContent = ''something else entirely'', doc_startTime = Some 5, doc_endTime = Some 10\<rparr>]"

definition example_embedding :: "string \<Rightarrow> real list" where
  "example_embedding t = [real (length t), 1]"

definition empty_stores :: stores where
  "empty_stores = \<lparr>pinecone = Map.empty, transcript_chunks = []\<rparr>"

definition ingested_once :: stores where
  "ingested_once =
     (case storeTranscriptChunks example_embedding 1 ''c1'' ''v1'' example_documents
             None None None example_segments empty_stores of
        Inr s \<Rightarrow> s | Inl e \<Rightarrow> empty_stores)"

definition ingested_twice :: stores where
  "ingested_twice =
     (case storeTranscriptChunks example_embedding 2 ''c1'' ''v1'' example_documents
             None None None example_segments ingested_once of
        Inr s \<Rightarrow> s | Inl e \<Rightarrow> ingested_once)"

section \<open>The ingestion job (src/src/routes/health.ts and src/src/lib/quota-middleware.ts)\<close>

text \<open>
  The route \<open>process.post('/creator')\<close> and the job functions follow the health route
  in the first file, the job store \<open>RedisJobStore\<close> is in the second. The databases and
  the Redis store are the state; what the video source and the per-video pipeline return is
  an input. Dates, the slug, the chat URL, the channel metadata that the job only copies to
  the creator and the storing of the channel context (whose errors the job ignores) are left
  out. Calls to the stores are taken to succeed.
\<close>

datatype JobStatus = Queued | Processing | Completed | Failed

record JobResult =
  processedVideos :: nat
  result_totalChunks :: nat
  failedVideos :: nat

record ProcessingJob =
  jobId :: string
  job_creatorId :: string
  job_channelUrl :: string
  status :: JobStatus
  progress_current :: nat
  progress_total :: nat
  result :: "JobResult option"
  error :: "string option"

record ChannelAIProcessing =
  proc_channelId :: string
  proc_teamId :: string
  proc_creatorId :: string
  proc_status :: JobStatus
  proc_jobId :: string
  videosProcessed :: nat
  proc_totalChunks :: nat
  proc_failedVideos :: nat
  errorCount :: nat
  lastError :: "string option"
  canReprocess :: bool

record Team =
  sub_status :: string
  has_channel_ai :: bool

record Creator =
  creator_id :: string
  creator_name :: string
  setupComplete :: bool
  ownedByTeamId :: "string option"
  ownedByChannelId :: "string option"

record world =
  teams :: "string \<rightharpoonup> Team"
  creators :: "Creator list"
  processing_records :: "ChannelAIProcessing list"
  jobs :: "string \<rightharpoonup> ProcessingJob"
  channel_keys :: "(string \<times> string) \<rightharpoonup> string"

subsection \<open>The job store\<close>

definition job_set :: "string \<Rightarrow> ProcessingJob \<Rightarrow> world \<Rightarrow> world" where
  \<comment> \<open>\<open>jobStore.set(jobId, job)\<close>\<close>
  "job_set j job w = w\<lparr>jobs := (jobs w)(j \<mapsto> job)\<rparr>"

definition markChannelProcessing :: "string \<Rightarrow> string \<Rightarrow> string \<Rightarrow> world \<Rightarrow> bool \<times> world" where
  \<comment> \<open>\<open>SET key jobId EX ttl NX\<close>: written only if the key is absent\<close>
  "markChannelProcessing channel team j w =
     (case channel_keys w (channel, team) of
        None \<Rightarrow> (True, w\<lparr>channel_keys := (channel_keys w)((channel, team) \<mapsto> j)\<rparr>)
      | Some other \<Rightarrow> (False, w))"

definition unmarkChannelProcessing :: "string \<Rightarrow> string \<Rightarrow> world \<Rightarrow> world" where
  "unmarkChannelProcessing channel team w =
     w\<lparr>channel_keys := (channel_keys w)((channel, team) := None)\<rparr>"

definition isChannelProcessing :: "string \<Rightarrow> string \<Rightarrow> world \<Rightarrow> bool" where
  "isChannelProcessing channel team w = (channel_keys w (channel, team) \<noteq> None)"

subsection \<open>The request handler\<close>

text \<open>
  A request: the origin header and the fields of the body, of the types that the schema
  asks for (\<open>req_maxVideos\<close> is \<open>options.maxVideos\<close>), together with the job id and the
  creator id that the handler would generate. Whether a string is a URL is decided by the
  validation library; the handler takes that test as the parameter \<open>valid_url\<close>.
\<close>

record request =
  originHeader :: "string option"
  req_teamId :: string
  req_channelId :: string
  req_channelUrl :: string
  req_channelHandle :: string
  req_channelThumbnail :: "string option"
  customDescription :: "string option"
  req_maxVideos :: "rat option"
  fresh_jobId :: string
  fresh_creatorId :: string

datatype response = Rejected nat string | Accepted string string

definition truthy :: "string option \<Rightarrow> bool" where
  \<comment> \<open>a string field in a condition: present and not empty\<close>
  "truthy s = (case s of None \<Rightarrow> False | Some t \<Rightarrow> t \<noteq> [])"

definition schema_ok :: "(string \<Rightarrow> bool) \<Rightarrow> request \<Rightarrow> bool" where
  \<comment> \<open>\<open>processCreatorSchema.parse(body)\<close> succeeds\<close>
  "schema_ok valid_url r =
     (req_teamId r \<noteq> [] \<and> req_channelId r \<noteq> [] \<and> valid_url (req_channelUrl r)
      \<and> req_channelHandle r \<noteq> []
      \<and> (case req_channelThumbnail r of None \<Rightarrow> True | Some u \<Rightarrow> valid_url u)
      \<and> (case customDescription r of None \<Rightarrow> True | Some d \<Rightarrow> length d \<le> 1000)
      \<and> (case req_maxVideos r of None \<Rightarrow> True | Some m \<Rightarrow> 1 \<le> m \<and> m \<le> 100))"

definition postCreator :: "(string \<Rightarrow> bool) \<Rightarrow> request \<Rightarrow> world \<Rightarrow> response \<times> world" where
  \<comment> \<open>\<open>process.post('/creator')\<close> up to its response; \<open>Accepted jobId creatorId\<close> is the
      answer 202, after which \<open>processVideosAsyncWithTimeout\<close> runs in the background\<close>
  "postCreator valid_url r w =
     (if originHeader r \<noteq> Some ''true'' then (Rejected 401 ''Unauthorized request origin'', w)
      else if \<not> schema_ok valid_url r
      then (Rejected 400 ''Invalid request parameters'', w)
      else (case teams w (req_teamId r) of
        None \<Rightarrow> (Rejected 404 ''Team not found'', w)
      | Some team \<Rightarrow>
          if sub_status team \<noteq> ''active''
          then (Rejected 403 ''Active subscription required. Please renew your subscription.'', w)
          else if \<not> has_channel_ai team
          then (Rejected 403 ''Channel AI subscription required. Please purchase the Channel AI add-on.'', w)
          else (case find (\<lambda>p. proc_channelId p = req_channelId r \<and> proc_teamId p = req_teamId r
                                \<and> proc_status p = Processing) (processing_records w) of
            Some ongoingProcessing \<Rightarrow>
              (Rejected 409 ''This channel is already being processed. Please wait for the current job to complete.'', w)
          | None \<Rightarrow>
              (case find (\<lambda>c. ownedByChannelId c = Some (req_channelId r)) (creators w) of
                 None \<Rightarrow>
                   (let newCreator = \<lparr>creator_id = fresh_creatorId r, creator_name = req_channelHandle r,
                                       setupComplete = False, ownedByTeamId = Some (req_teamId r),
                                       ownedByChannelId = Some (req_channelId r)\<rparr>;
                        job = \<lparr>jobId = fresh_jobId r, job_creatorId = fresh_creatorId r,
                                job_channelUrl = req_channelUrl r, status = Queued,
                                progress_current = 0, progress_total = 0, result = None, error = None\<rparr>
                    in (Accepted (fresh_jobId r) (fresh_creatorId r),
                        job_set (fresh_jobId r) job (w\<lparr>creators := creators w @ [newCreator]\<rparr>)))
               | Some creator \<Rightarrow>
                   if truthy (ownedByTeamId creator) \<and> ownedByTeamId creator \<noteq> Some (req_teamId r)
                   then (Rejected 403 ''This channel has already been processed by another team. Please contact support for ownership transfer.'', w)
                   else
                     (let job = \<lparr>jobId = fresh_jobId r, job_creatorId = creator_id creator,
                                  job_channelUrl = req_channelUrl r, status = Queued,
                                  progress_current = 0, progress_total = 0, result = None, error = None\<rparr>
                      in (Accepted (fresh_jobId r) (creator_id creator),
                          job_set (fresh_jobId r) job w))))))"

subsection \<open>The background job\<close>

definition upsertProcessing :: "ChannelAIProcessing \<Rightarrow> ChannelAIProcessing list \<Rightarrow> ChannelAIProcessing list" where
  \<comment> \<open>\<open>updateOne({channelId, teamId, jobId}, {$set: record}, {upsert: true})\<close>\<close>
  "upsertProcessing rec records =
     (let same = (\<lambda>p. proc_channelId p = proc_channelId rec \<and> proc_teamId p = proc_teamId rec
                        \<and> proc_jobId p = proc_jobId rec)
      in if list_ex same records
         then takeWhile (\<lambda>p. \<not> same p) records @ [rec] @ tl (dropWhile (\<lambda>p. \<not> same p) records)
         else records @ [rec])"

definition writeStatus ::
  "string \<Rightarrow> string \<Rightarrow> JobStatus \<Rightarrow> nat \<Rightarrow> nat \<Rightarrow> nat \<Rightarrow> string option \<Rightarrow> world \<Rightarrow> world" where
  \<comment> \<open>the three writes of the processing status: nothing is written for a creator without
      owner; a failure adds 1 to the error count, a completion resets it; reprocessing is
      allowed unless the status is \<open>processing\<close>\<close>
  "writeStatus j creator st videos chunks failed err w =
     (case find (\<lambda>c. creator_id c = creator) (creators w) of
        None \<Rightarrow> w
      | Some c \<Rightarrow>
          if truthy (ownedByTeamId c) \<and> truthy (ownedByChannelId c)
          then (let old = find (\<lambda>p. proc_channelId p = the (ownedByChannelId c)
                                    \<and> proc_teamId p = the (ownedByTeamId c) \<and> proc_jobId p = j)
                               (processing_records w);
                    oldCount = (case old of None \<Rightarrow> 0 | Some p \<Rightarrow> errorCount p);
                    oldError = (case old of None \<Rightarrow> None | Some p \<Rightarrow> lastError p);
                    rec = \<lparr>proc_channelId = the (ownedByChannelId c), proc_teamId = the (ownedByTeamId c),
                            proc_creatorId = creator, proc_status = st, proc_jobId = j,
                            videosProcessed = videos, proc_totalChunks = chunks, proc_failedVideos = failed,
                            errorCount = (if st = Failed then oldCount + 1
                                          else if st = Completed then 0 else oldCount),
                            lastError = (if st = Failed then err
                                         else if st = Completed then None else oldError),
                            canReprocess = (st \<noteq> Processing)\<rparr>
                in w\<lparr>processing_records := upsertProcessing rec (processing_records w)\<rparr>)
          else w)"

definition startProcessing :: "string \<Rightarrow> string \<Rightarrow> world \<Rightarrow> world" where
  \<comment> \<open>the start of \<open>processVideosAsync\<close>: the job becomes \<open>processing\<close> and the status is
      written to the processing collection\<close>
  "startProcessing j creator w =
     (case jobs w j of
        None \<Rightarrow> w
      | Some job \<Rightarrow>
          writeStatus j creator Processing 0 0 0 None (job_set j (job\<lparr>status := Processing\<rparr>) w))"

record Video =
  video_id :: string
  durationMinutes :: nat
  hasCaptions :: bool

record ChannelInfo =
  channelDescription :: "string option"
  wikipediaSummary :: "string option"

datatype video_outcome = Throws | NoTranscript | NoDocuments | Stored nat

record environment =
  getChannelVideos :: "string + Video list"
  getChannelInfo :: "string + ChannelInfo"
  processVideo :: "string \<Rightarrow> video_outcome"
  teams_at_end :: "string \<rightharpoonup> Team"

definition long_enough :: "string option \<Rightarrow> bool" where
  \<comment> \<open>\<open>description && description.length > 50\<close>\<close>
  "long_enough d = (case d of None \<Rightarrow> False | Some t \<Rightarrow> length t > 50)"

definition valid_duration :: "Video \<Rightarrow> bool" where
  "valid_duration v = (2 \<le> durationMinutes v \<and> durationMinutes v \<le> 25)"

definition generic_message :: string where
  "generic_message =
     ''No eligible videos found. Your videos must be between 2-25 minutes long with captions enabled. ''
     @ ''To proceed without eligible videos, please provide a custom description when creating the bot (or add a detailed channel description on YouTube).''"

definition bullet :: string where
  \<comment> \<open>the bullet character of the source, in UTF-8\<close>
  "bullet = [CHR 0xE2, CHR 0x80, CHR 0xA2]"

definition specific_message :: "nat \<Rightarrow> nat \<Rightarrow> string" where
  \<comment> \<open>\<open>Build specific error message based on what's missing\<close>\<close>
  "specific_message videosWithCaptions videosWithValidDuration =
     (if videosWithCaptions = 0 \<and> videosWithValidDuration = 0
      then ''Channel not eligible: No videos with captions AND no videos between 2-25 minutes in length. ''
           @ ''Requirements:'' @ [CHR 0x0A]
           @ bullet @ '' Videos must have captions/transcripts enabled'' @ [CHR 0x0A]
           @ bullet @ '' Videos must be between 2-25 minutes long'' @ [CHR 0x0A]
           @ ''OR provide a custom description when creating the bot.''
      else if videosWithCaptions = 0
      then ''Channel not eligible: Found '' @ show_nat videosWithValidDuration
           @ '' video(s) with valid duration (2-25 min), but NONE have captions/transcripts. ''
           @ ''YouTube auto-generates captions after 10-30 minutes. ''
           @ ''Please enable captions or provide a custom description.''
      else if videosWithValidDuration = 0
      then ''Channel not eligible: Found '' @ show_nat videosWithCaptions
           @ '' video(s) with captions, but NONE are between 2-25 minutes in length. ''
           @ ''We only process videos between 2-25 minutes. ''
           @ ''Please ensure you have videos in this duration range or provide a custom description.''
      else ''Channel not eligible: Found '' @ show_nat videosWithCaptions
           @ '' video(s) with captions and '' @ show_nat videosWithValidDuration
           @ '' video(s) with valid duration, but NO overlap. ''
           @ ''Videos need BOTH captions AND be 2-25 minutes long. ''
           @ ''Please provide a custom description to proceed.'')"

definition eligibility_error :: "Video list \<Rightarrow> ChannelInfo \<Rightarrow> string option \<Rightarrow> string option" where
  \<comment> \<open>the two eligibility checks in their order; \<open>Some m\<close>: \<open>throw new Error(m)\<close>\<close>
  "eligibility_error videos channelInfo custom =
     (let hasCustomDescription = long_enough custom;
          hasChannelDescription = long_enough (channelDescription channelInfo);
          hasWikipedia = long_enough (wikipediaSummary channelInfo);
          videosWithCaptions = length (filter hasCaptions videos);
          videosWithValidDuration = length (filter valid_duration videos);
          videosEligibleForProcessing = length (filter (\<lambda>v. hasCaptions v \<and> valid_duration v) videos)
      in if videosEligibleForProcessing = 0 \<and> \<not> hasCustomDescription \<and> \<not> hasChannelDescription
            \<and> \<not> hasWikipedia
         then Some generic_message
         else if videosEligibleForProcessing = 0 \<and> \<not> hasChannelDescription \<and> \<not> hasCustomDescription
            \<and> \<not> hasWikipedia
         then Some (specific_message videosWithCaptions videosWithValidDuration)
         else None)"

fun process_videos ::
  "(string \<Rightarrow> video_outcome) \<Rightarrow> nat \<Rightarrow> Video list
   \<Rightarrow> nat \<times> nat \<times> nat \<times> ProcessingJob \<times> ProcessingJob list
   \<Rightarrow> nat \<times> nat \<times> nat \<times> ProcessingJob \<times> ProcessingJob list" where
  \<comment> \<open>the loop over the videos on \<open>(processedVideos, totalChunks, failedVideos, job, writes)\<close>,
      \<open>writes\<close> being the job records given to \<open>jobStore.set\<close> so far\<close>
  "process_videos pv i [] st = st"
| "process_videos pv i (v # vs) (processed, chunks, failed, job, writes) =
     (if durationMinutes v < 2 \<or> durationMinutes v > 25
      then process_videos pv (i + 1) vs (processed, chunks, failed + 1, job, writes)
      else (case pv (video_id v) of
              Stored documents \<Rightarrow>
                if documents = 0
                then process_videos pv (i + 1) vs (processed, chunks, failed + 1, job, writes)
                else process_videos pv (i + 1) vs
                       (processed + 1, chunks + documents, failed,
                        job\<lparr>progress_current := i + 1\<rparr>,
                        writes @ [job\<lparr>progress_current := i + 1\<rparr>])
            | other \<Rightarrow> process_videos pv (i + 1) vs (processed, chunks, failed + 1, job, writes)))"

definition no_content_message :: string where
  "no_content_message =
     ''Processing completed but no content available. None of your videos have transcripts, and no channel description was found. ''
     @ ''Please either:'' @ [CHR 0x0A] @ ''1. Enable captions on your videos'' @ [CHR 0x0A]
     @ ''2. Add a channel description on YouTube'' @ [CHR 0x0A] @ ''3. Provide a custom description''"

definition revalidation_error :: "(string \<rightharpoonup> Team) \<Rightarrow> Creator option \<Rightarrow> string option" where
  \<comment> \<open>the entitlement check before the results are stored\<close>
  "revalidation_error teams_now creator =
     (case creator of
        None \<Rightarrow> None
      | Some c \<Rightarrow>
          if truthy (ownedByTeamId c) \<and> truthy (ownedByChannelId c)
          then (case teams_now (the (ownedByTeamId c)) of
                  None \<Rightarrow> Some ''Team no longer exists. Processing aborted.''
                | Some team \<Rightarrow>
                    if sub_status team \<noteq> ''active''
                    then Some (''Subscription is no longer active (status: '' @ sub_status team
                               @ ''). Processing aborted.'')
                    else if \<not> has_channel_ai team
                    then Some ''Channel AI subscription was cancelled during processing. Processing aborted.''
                    else None)
          else None)"

definition run_job ::
  "environment \<Rightarrow> string option \<Rightarrow> string \<Rightarrow> ProcessingJob \<Rightarrow> world
   \<Rightarrow> (string + JobResult) \<times> ProcessingJob \<times> ProcessingJob list" where
  \<comment> \<open>the \<open>try\<close> block after the start: the error thrown or the result, the job object and
      the job records written\<close>
  "run_job env custom creator job w =
     (case getChannelVideos env of
        Inl e \<Rightarrow> (Inl e, job, [])
      | Inr videos \<Rightarrow>
          (let job1 = job\<lparr>progress_total := length videos\<rparr> in
           case getChannelInfo env of
             Inl e \<Rightarrow> (Inl e, job1, [job1])
           | Inr channelInfo \<Rightarrow>
               (case eligibility_error videos channelInfo custom of
                  Some m \<Rightarrow> (Inl m, job1, [job1])
                | None \<Rightarrow>
                    (let (processed, chunks, failed, job2, writes) =
                           process_videos (processVideo env) 0 videos (0, 0, 0, job1, [job1])
                     in if processed = 0 \<and> \<not> long_enough (channelDescription channelInfo)
                           \<and> \<not> long_enough custom \<and> \<not> long_enough (wikipediaSummary channelInfo)
                        then (Inl no_content_message, job2, writes)
                        else (case revalidation_error (teams_at_end env)
                                     (find (\<lambda>c. creator_id c = creator) (creators w)) of
                                Some m \<Rightarrow> (Inl m, job2, writes)
                              | None \<Rightarrow>
                                  (Inr \<lparr>processedVideos = processed, result_totalChunks = chunks,
                                        failedVideos = failed\<rparr>, job2, writes))))))"

fun updateOne :: "('a \<Rightarrow> bool) \<Rightarrow> ('a \<Rightarrow> 'a) \<Rightarrow> 'a list \<Rightarrow> 'a list" where
  \<comment> \<open>\<open>collection.updateOne(filter, {$set: ...})\<close>: the first match\<close>
  "updateOne P f [] = []"
| "updateOne P f (x # xs) = (if P x then f x # xs else x # updateOne P f xs)"

definition processVideosAsync ::
  "environment \<Rightarrow> string \<Rightarrow> string \<Rightarrow> string option \<Rightarrow> world \<Rightarrow> ProcessingJob list \<times> world" where
  \<comment> \<open>the job records written to the job store, in order, and the state at the end\<close>
  "processVideosAsync env j creator custom w =
     (case jobs w j of
        None \<Rightarrow> ([], w)
      | Some job \<Rightarrow>
          (let job0 = job\<lparr>status := Processing\<rparr>;
               w1 = startProcessing j creator w
           in case run_job env custom creator job0 w1 of
                (Inr res, job2, writes) \<Rightarrow>
                  (let w2 = w1\<lparr>creators := updateOne (\<lambda>c. creator_id c = creator)
                                                (\<lambda>c. c\<lparr>setupComplete := True\<rparr>) (creators w1)\<rparr>;
                       completed = job2\<lparr>status := Completed, result := Some res\<rparr>
                   in ([job0] @ writes @ [completed],
                       writeStatus j creator Completed (processedVideos res) (result_totalChunks res)
                         (failedVideos res) None (job_set j completed w2)))
              | (Inl message, job2, writes) \<Rightarrow>
                  (let failed = job2\<lparr>status := Failed, error := Some message\<rparr>
                   in ([job0] @ writes @ [failed],
                       writeStatus j creator Failed 0 0 0 (Some message) (job_set j failed w1)))))"

definition timeout_message :: string where
  \<comment> \<open>\<open>PROCESSING_TIMEOUT_MS / 60000\<close> is 30\<close>
  "timeout_message = ''Processing timeout: Job exceeded maximum time limit of 30 minutes''"

record wrapper_outcome =
  logged :: "string option"
  job_at_timeout :: "ProcessingJob option"
  final_world :: world

definition processVideosAsyncWithTimeout ::
  "environment \<Rightarrow> string \<Rightarrow> string \<Rightarrow> string option \<Rightarrow> nat option \<Rightarrow> world \<Rightarrow> wrapper_outcome" where
  \<comment> \<open>\<open>Promise.race\<close> of the job and the timer. \<open>Some k\<close>: the 30 minutes are over when the
      job has made \<open>k\<close> of its writes to the job store. The \<open>catch\<close> of the wrapper logs the
      error and writes nothing, and the job, which nothing cancels, runs to its end.\<close>
  "processVideosAsyncWithTimeout env j creator custom timer w =
     (let (writes, w') = processVideosAsync env j creator custom w in
      case timer of
        None \<Rightarrow> \<lparr>logged = None, job_at_timeout = None, final_world = w'\<rparr>
      | Some k \<Rightarrow>
          if k < length writes
          then \<lparr>logged = Some timeout_message,
                job_at_timeout = (if k = 0 then jobs w j else Some (writes ! (k - 1))),
                final_world = w'\<rparr>
          else \<lparr>logged = None, job_at_timeout = None, final_world = w'\<rparr>)"

subsection \<open>Requests and background jobs in one event loop\<close>

datatype action = Post request | Start string string

fun run :: "(string \<Rightarrow> bool) \<Rightarrow> action list \<Rightarrow> world \<Rightarrow> response list \<times> world" where
  \<comment> \<open>a schedule: each request handler runs up to its response, each background job up to
      its first status write\<close>
  "run valid_url [] w = ([], w)"
| "run valid_url (Post r # rest) w =
     (let (resp, w1) = postCreator valid_url r w; (resps, w2) = run valid_url rest w1
      in (resp # resps, w2))"
| "run valid_url (Start j creator # rest) w = run valid_url rest (startProcessing j creator w)"

text \<open>Example data: one team, two requests for the same channel, a channel without captions.\<close>

definition example_world :: world where
  "example_world =
     \<lparr>teams = [''team1'' \<mapsto> \<lparr>sub_status = ''active'', has_channel_ai = True\<rparr>],
      creators = [], processing_records = [], jobs = Map.empty, channel_keys = Map.empty\<rparr>"

definition example_request :: "string \<Rightarrow> request" where
  "example_request j =
     \<lparr>originHeader = Some ''true'', req_teamId = ''team1'', req_channelId = ''chan1'',
      req_channelUrl = ''https://www.youtube.com/@creator'', req_channelHandle = ''creator'',
      req_channelThumbnail = None, customDescription = None, req_maxVideos = None,
      fresh_jobId = j, fresh_creatorId = ''creator1''\<rparr>"

definition accepts_https :: "string \<Rightarrow> bool" where
  \<comment> \<open>a URL test for the examples\<close>
  "accepts_https u = starts_with u ''https://''"

definition example_environment :: "Video list \<Rightarrow> environment" where
  "example_environment videos =
     \<lparr>getChannelVideos = Inr videos,
      getChannelInfo = Inr \<lparr>channelDescription = None, wikipediaSummary = None\<rparr>,
      processVideo = (\<lambda>v. Stored 3),
      teams_at_end = [''team1'' \<mapsto> \<lparr>sub_status = ''active'', has_channel_ai = True\<rparr>]\<rparr>"

definition queued_world :: world where
  \<comment> \<open>the state after the first request was accepted\<close>
  "queued_world = snd (postCreator accepts_https (example_request ''job1'') example_world)"

definition video_without_captions :: Video where
  "video_without_captions = \<lparr>video_id = ''v1'', durationMinutes = 10, hasCaptions = False\<rparr>"

definition video_too_long :: Video where
  "video_too_long = \<lparr>video_id = ''v2'', durationMinutes = 40, hasCaptions = True\<rparr>"

definition video_eligible :: Video where
  "video_eligible = \<lparr>video_id = ''v3'', durationMinutes = 10, hasCaptions = True\<rparr>"

section \<open>Properties of the rounding\<close>

text \<open>Rounding to the nearest double is monotone on the non-negative numbers.\<close>

lemma exponent_bounds:
  assumes "0 < x"
  shows "2 powi exponent x \<le> x" and "x < 2 powi (exponent x + 1)"
proof -
  obtain p q where pq: "quotient_of x = (p, q)" by (cases "quotient_of x")
  then have q: "0 < q" by (rule quotient_of_denom_pos)
  have x: "x = of_int p / of_int q" using pq by (rule quotient_of_div)
  with assms q have p: "0 < p" by (simp add: zero_less_divide_iff)
  define bp bq where "bp = bitlen p" and "bq = bitlen q"
  have bp1: "1 \<le> bp" and bq1: "1 \<le> bq"
    using p q bitlen_eq_zero_iff[of p] bitlen_eq_zero_iff[of q] bitlen_nonneg[of p] bitlen_nonneg[of q]
    by (auto simp: bp_def bq_def)
  have cast: "(2::rat) powi (b - 1) \<le> of_int n \<and> (of_int n :: rat) < 2 powi b"
    if "2 ^ nat (b - 1) \<le> n" "n < 2 ^ nat b" "1 \<le> b" for n b :: int
  proof -
    have "(of_int (2 ^ nat (b - 1)) :: rat) \<le> of_int n" using that(1) by (simp only: of_int_le_iff)
    moreover have "(of_int n :: rat) < of_int (2 ^ nat b)" using that(2) by (simp only: of_int_less_iff)
    moreover have "(2::rat) powi (b - 1) = of_int (2 ^ nat (b - 1))" "(2::rat) powi b = of_int (2 ^ nat b)"
      using that(3) by (simp_all add: power_int_def)
    ultimately show ?thesis by (simp only:)
  qed
  from bitlen_bounds[OF p] have "2 ^ nat (bp - 1) \<le> p" "p < 2 ^ nat bp" by (simp_all add: bp_def)
  from cast[OF this bp1] have P: "(2::rat) powi (bp - 1) \<le> of_int p" "(of_int p :: rat) < 2 powi bp"
    by simp_all
  from bitlen_bounds[OF q] have "2 ^ nat (bq - 1) \<le> q" "q < 2 ^ nat bq" by (simp_all add: bq_def)
  from cast[OF this bq1] have Q: "(2::rat) powi (bq - 1) \<le> of_int q" "(of_int q :: rat) < 2 powi bq"
    by simp_all
  have qpos: "(0::rat) < of_int q" using q by simp
  have lo: "(2::rat) powi (bp - bq - 1) \<le> x"
  proof -
    have "(2::rat) powi (bp - bq - 1) * of_int q \<le> 2 powi (bp - bq - 1) * 2 powi bq"
      using Q(2) by (intro mult_left_mono) simp_all
    also have "\<dots> = 2 powi (bp - 1)" by (simp flip: power_int_add)
    also have "\<dots> \<le> of_int p" by (rule P(1))
    finally show ?thesis using qpos by (simp add: x pos_le_divide_eq)
  qed
  have hi: "x < (2::rat) powi (bp - bq + 1)"
  proof -
    have "(of_int p :: rat) < 2 powi bp" by (rule P(2))
    also have "\<dots> = 2 powi (bp - bq + 1) * 2 powi (bq - 1)" by (simp flip: power_int_add)
    also have "\<dots> \<le> 2 powi (bp - bq + 1) * of_int q"
      using Q(1) by (intro mult_left_mono) simp_all
    finally show ?thesis using qpos by (simp add: x pos_divide_less_eq)
  qed
  have e: "exponent x = (if 2 powi (bp - bq) \<le> x then bp - bq else bp - bq - 1)"
    by (simp add: exponent_def pq bp_def bq_def Let_def)
  show "2 powi exponent x \<le> x" using lo by (simp add: e)
  show "x < 2 powi (exponent x + 1)" using hi by (auto simp: e not_le)
qed

lemma round_half_even_mono: "x \<le> y \<Longrightarrow> round_half_even x \<le> round_half_even y"
proof -
  assume xy: "x \<le> y"
  have fl: "\<lfloor>x\<rfloor> \<le> \<lfloor>y\<rfloor>" using xy by (rule floor_mono)
  have ux: "round_half_even x \<le> \<lfloor>x\<rfloor> + 1" and ly: "\<lfloor>y\<rfloor> \<le> round_half_even y"
    by (simp_all add: round_half_even_def)
  show ?thesis
  proof (cases "\<lfloor>x\<rfloor> = \<lfloor>y\<rfloor>")
    case True
    then show ?thesis using xy by (auto simp: round_half_even_def)
  next
    case False
    with fl have "\<lfloor>x\<rfloor> + 1 \<le> \<lfloor>y\<rfloor>" by simp
    with ux ly show ?thesis by linarith
  qed
qed

lemma round_half_even_of_int [simp]: "round_half_even (of_int n) = n"
  by (simp add: round_half_even_def)

lemma round_double_pos:
  assumes "0 < x"
  shows "2 powi exponent x \<le> round_double x" and "round_double x \<le> 2 powi (exponent x + 1)"
proof -
  define s :: rat where "s = 2 powi (exponent x - 52)"
  have s: "0 < s" by (simp add: s_def)
  have rd: "round_double x = of_int (round_half_even (x / s)) * s"
    using assms by (simp add: round_double_def s_def)
  have e1: "2 powi exponent x = (2 ^ 52 :: rat) * s"
    unfolding s_def by (simp add: power_int_diff)
  have e2: "2 powi (exponent x + 1) = (2 ^ 53 :: rat) * s"
    unfolding s_def by (simp add: power_int_diff power_int_add)
  define m where "m = round_half_even (x / s)"
  define lo hi :: int where "lo = 2 ^ 52" and "hi = 2 ^ 53"
  have lo: "(2 ^ 52 :: rat) = of_int lo" and hi: "(2 ^ 53 :: rat) = of_int hi"
    by (simp_all add: lo_def hi_def)
  have "of_int lo * s \<le> x" using exponent_bounds(1)[OF assms] by (simp only: e1 lo)
  then have "of_int lo \<le> x / s" using s by (simp only: pos_le_divide_eq)
  then have "round_half_even (of_int lo) \<le> m" unfolding m_def by (rule round_half_even_mono)
  then have "lo \<le> m" by (simp only: round_half_even_of_int)
  then have "(of_int lo :: rat) \<le> of_int m" by (simp only: of_int_le_iff)
  then have "of_int lo * s \<le> of_int m * s" using s by (simp only: mult_le_cancel_right_pos)
  then show "2 powi exponent x \<le> round_double x"
    by (simp only: rd e1 lo m_def)
  have "x \<le> of_int hi * s" using exponent_bounds(2)[OF assms] by (simp only: e2 hi less_imp_le)
  then have "x / s \<le> of_int hi" using s by (simp only: pos_divide_le_eq)
  then have "m \<le> round_half_even (of_int hi)" unfolding m_def by (rule round_half_even_mono)
  then have "m \<le> hi" by (simp only: round_half_even_of_int)
  then have "(of_int m :: rat) \<le> of_int hi" by (simp only: of_int_le_iff)
  then have "of_int m * s \<le> of_int hi * s" using s by (simp only: mult_le_cancel_right_pos)
  then show "round_double x \<le> 2 powi (exponent x + 1)"
    by (simp only: rd e2 hi m_def)
qed

lemma round_double_nonneg: "0 \<le> x \<Longrightarrow> 0 \<le> round_double x"
proof (cases "x = 0")
  case True
  then show ?thesis by (simp add: round_double_def)
next
  case False
  assume "0 \<le> x"
  with False have "0 < x" by simp
  from round_double_pos(1)[OF this] show ?thesis
    by (meson zero_le_power_int order_trans zero_le_numeral)
qed

lemma round_double_mono:
  assumes "0 \<le> x" "x \<le> y"
  shows "round_double x \<le> round_double y"
proof (cases "x = 0")
  case True
  then show ?thesis using assms round_double_nonneg[of y] by (simp add: round_double_def)
next
  case False
  with assms have x: "0 < x" and y: "0 < y" by simp_all
  have ee: "exponent x \<le> exponent y"
  proof (rule ccontr)
    assume "\<not> exponent x \<le> exponent y"
    then have "exponent y + 1 \<le> exponent x" by simp
    then have "(2::rat) powi (exponent y + 1) \<le> 2 powi exponent x"
      by (intro power_int_increasing) simp_all
    with exponent_bounds(2)[OF y] exponent_bounds(1)[OF x] assms(2) show False by linarith
  qed
  show ?thesis
  proof (cases "exponent x = exponent y")
    case True
    define s :: rat where "s = 2 powi (exponent y - 52)"
    have s: "0 < s" by (simp add: s_def)
    have "x / s \<le> y / s" using assms(2) s by (simp add: divide_right_mono)
    then have "round_half_even (x / s) \<le> round_half_even (y / s)" by (rule round_half_even_mono)
    then have "(of_int (round_half_even (x / s)) :: rat) * s \<le> of_int (round_half_even (y / s)) * s"
      using s by simp
    then show ?thesis using x y True by (simp add: round_double_def s_def)
  next
    case False
    with ee have "exponent x + 1 \<le> exponent y" by simp
    then have "(2::rat) powi (exponent x + 1) \<le> 2 powi exponent y"
      by (intro power_int_increasing) simp_all
    with round_double_pos(2)[OF x] round_double_pos(1)[OF y] show ?thesis by linarith
  qed
qed

text \<open>
  The value of a rounding is checked from the exponent and the mantissa of the result.
\<close>

lemma exponent_eqI:
  assumes "0 < x" "2 powi e \<le> x" "x < 2 powi (e + 1)"
  shows "exponent x = e"
proof (rule antisym)
  show "exponent x \<le> e"
  proof (rule ccontr)
    assume "\<not> exponent x \<le> e"
    then have "e + 1 \<le> exponent x" by simp
    then have "(2::rat) powi (e + 1) \<le> 2 powi exponent x"
      by (intro power_int_increasing) simp_all
    with exponent_bounds(1)[OF assms(1)] assms(3) show False by linarith
  qed
  show "e \<le> exponent x"
  proof (rule ccontr)
    assume "\<not> e \<le> exponent x"
    then have "exponent x + 1 \<le> e" by simp
    then have "(2::rat) powi (exponent x + 1) \<le> 2 powi e"
      by (intro power_int_increasing) simp_all
    with exponent_bounds(2)[OF assms(1)] assms(2) show False by linarith
  qed
qed

lemma round_half_even_eqI:
  assumes "of_int m - 1 / 2 < y" "y < of_int m + 1 / 2"
  shows "round_half_even y = m"
proof -
  consider "\<lfloor>y\<rfloor> = m" | "\<lfloor>y\<rfloor> = m - 1"
  proof -
    have "m - 1 \<le> \<lfloor>y\<rfloor>" using assms(1) by (simp add: le_floor_iff) 
    moreover have "\<lfloor>y\<rfloor> \<le> m" using assms(2) by (simp add: floor_le_iff)
    ultimately have "\<lfloor>y\<rfloor> = m \<or> \<lfloor>y\<rfloor> = m - 1" by linarith
    then show ?thesis using that by blast
  qed
  then show ?thesis
  proof cases
    case 1
    then show ?thesis using assms by (simp add: round_half_even_def)
  next
    case 2
    then show ?thesis using assms by (simp add: round_half_even_def)
  qed
qed

lemma round_double_cert:
  assumes "0 < x" "2 powi e \<le> x" "x < 2 powi (e + 1)"
    and "(of_int m - 1 / 2) * 2 powi (e - 52) < x" "x < (of_int m + 1 / 2) * 2 powi (e - 52)"
  shows "round_double x = of_int m * 2 powi (e - 52)"
proof -
  have e: "exponent x = e" using assms(1-3) by (rule exponent_eqI)
  have s: "(0::rat) < 2 powi (e - 52)" by simp
  have "round_half_even (x / 2 powi (e - 52)) = m"
    using assms(4,5) s by (intro round_half_even_eqI) (simp_all add: pos_less_divide_eq pos_divide_less_eq)
  then show ?thesis using assms(1) e by (simp add: round_double_def)
qed

lemma round_double_exact:
  assumes "0 < x" "2 powi e \<le> x" "x < 2 powi (e + 1)" "x = of_int m * 2 powi (e - 52)"
  shows "round_double x = x"
proof -
  have e: "exponent x = e" using assms(1-3) by (rule exponent_eqI)
  have "x / 2 powi (e - 52) = of_int m" using assms(4) by simp
  then show ?thesis using assms(1,4) e by (simp add: round_double_def)
qed

lemma round_double_tie_down:
  assumes "0 < x" "2 powi e \<le> x" "x < 2 powi (e + 1)"
    and "x = (of_int m + 1 / 2) * 2 powi (e - 52)" "even m"
  shows "round_double x = of_int m * 2 powi (e - 52)"
proof -
  have e: "exponent x = e" using assms(1-3) by (rule exponent_eqI)
  have y: "x / 2 powi (e - 52) = of_int m + 1 / 2" using assms(4) by simp
  have "\<lfloor>of_int m + (1 / 2 :: rat)\<rfloor> = m" by (simp add: floor_unique)
  then have "round_half_even (of_int m + 1 / 2) = m"
    using assms(5) by (simp add: round_half_even_def)
  then show ?thesis using assms(1) e y by (simp add: round_double_def)
qed

lemma round_double_tie_up:
  assumes "0 < x" "2 powi e \<le> x" "x < 2 powi (e + 1)"
    and "x = (of_int m - 1 / 2) * 2 powi (e - 52)" "even m"
  shows "round_double x = of_int m * 2 powi (e - 52)"
proof -
  have e: "exponent x = e" using assms(1-3) by (rule exponent_eqI)
  have y: "x / 2 powi (e - 52) = of_int m - 1 / 2" using assms(4) by simp
  have f: "\<lfloor>of_int m - (1 / 2 :: rat)\<rfloor> = m - 1" by (simp add: floor_unique)
  have "round_half_even (of_int m - 1 / 2) = m"
    using assms(5) unfolding round_half_even_def f by simp
  then show ?thesis using assms(1) e y by (simp add: round_double_def)
qed




lemma js_mult_mono_left:
  assumes "0 \<le> a" "a \<le> b" "0 \<le> c"
  shows "js_mult a c \<le> js_mult b c"
  unfolding js_mult_def
proof (rule round_double_mono)
  show "0 \<le> a * c" using assms by simp
  show "a * c \<le> b * c" using assms by (simp add: mult_right_mono)
qed


lemma js_div_nonneg: "0 \<le> a \<Longrightarrow> 0 \<le> b \<Longrightarrow> 0 \<le> js_div a b"
  unfolding js_div_def by (rule round_double_nonneg) simp

lemma js_div_mono_left:
  assumes "0 \<le> a" "a \<le> b" "0 \<le> c"
  shows "js_div a c \<le> js_div b c"
  unfolding js_div_def
proof (rule round_double_mono)
  show "0 \<le> a / c" using assms by simp
  show "a / c \<le> b / c" using assms by (simp add: divide_right_mono)
qed

section \<open>Values of the double arithmetic\<close>

text \<open>
  The roundings that the examples and the ranking of ten results need, each checked from
  the exponent and the mantissa of its result.
\<close>

lemma dv_1: "literal (7 / 10) = 3152519739159347 / 4503599627370496"
  unfolding literal_def
  by (rule trans[OF round_double_cert[where e = "-1" and m = "6305039478318694"]]) simp_all

lemma dv_2: "literal (3 / 10) = 5404319552844595 / 18014398509481984"
  unfolding literal_def
  by (rule trans[OF round_double_cert[where e = "-2" and m = "5404319552844595"]]) simp_all

lemma dv_3: "literal (1 / 10) = 3602879701896397 / 36028797018963968"
  unfolding literal_def
  by (rule trans[OF round_double_cert[where e = "-4" and m = "7205759403792794"]]) simp_all

lemma dv_4: "literal (4 / 5) = 3602879701896397 / 4503599627370496"
  unfolding literal_def
  by (rule trans[OF round_double_cert[where e = "-1" and m = "7205759403792794"]]) simp_all

lemma dv_5: "literal (1 / 20) = 3602879701896397 / 72057594037927936"
  unfolding literal_def
  by (rule trans[OF round_double_cert[where e = "-5" and m = "7205759403792794"]]) simp_all

lemma dv_6: "js_mult 0 (3602879701896397 / 72057594037927936) = 0"
  by (simp add: js_mult_def round_double_def)

lemma dv_7: "js_sub (3602879701896397 / 4503599627370496) 0 = 3602879701896397 / 4503599627370496"
  unfolding js_sub_def
  by (rule trans[OF round_double_exact[where e = "-1" and m = "7205759403792794"]]) simp_all

lemma dv_8: "js_mult (3602879701896397 / 4503599627370496) (3152519739159347 / 4503599627370496) = 5044031582654955 / 9007199254740992"
  unfolding js_mult_def
  by (rule trans[OF round_double_cert[where e = "-1" and m = "5044031582654955"]]) simp_all

lemma dv_9: "js_mult 1 (3602879701896397 / 72057594037927936) = 3602879701896397 / 72057594037927936"
  unfolding js_mult_def
  by (rule trans[OF round_double_exact[where e = "-5" and m = "7205759403792794"]]) simp_all

lemma dv_10: "js_sub (3602879701896397 / 4503599627370496) (3602879701896397 / 72057594037927936) = 3 / 4"
  unfolding js_sub_def
  by (rule trans[OF round_double_cert[where e = "-1" and m = "6755399441055744"]]) simp_all

lemma dv_11: "js_mult (3 / 4) (3152519739159347 / 4503599627370496) = 1182194902184755 / 2251799813685248"
  unfolding js_mult_def
  by (rule trans[OF round_double_tie_down[where e = "-1" and m = "4728779608739020"]]) simp_all

lemma dv_12: "js_mult 2 (3602879701896397 / 72057594037927936) = 3602879701896397 / 36028797018963968"
  unfolding js_mult_def
  by (rule trans[OF round_double_exact[where e = "-4" and m = "7205759403792794"]]) simp_all

lemma dv_13: "js_sub (3602879701896397 / 4503599627370496) (3602879701896397 / 36028797018963968) = 6305039478318695 / 9007199254740992"
  unfolding js_sub_def
  by (rule trans[OF round_double_cert[where e = "-1" and m = "6305039478318695"]]) simp_all

lemma dv_14: "js_mult (6305039478318695 / 9007199254740992) (3152519739159347 / 4503599627370496) = 2206763817411543 / 4503599627370496"
  unfolding js_mult_def
  by (rule trans[OF round_double_cert[where e = "-2" and m = "8827055269646172"]]) simp_all

lemma dv_15: "js_mult 3 (3602879701896397 / 72057594037927936) = 1351079888211149 / 9007199254740992"
  unfolding js_mult_def
  by (rule trans[OF round_double_tie_up[where e = "-3" and m = "5404319552844596"]]) simp_all

lemma dv_16: "js_sub (3602879701896397 / 4503599627370496) (1351079888211149 / 9007199254740992) = 5854679515581645 / 9007199254740992"
  unfolding js_sub_def
  by (rule trans[OF round_double_exact[where e = "-1" and m = "5854679515581645"]]) simp_all

lemma dv_17: "js_mult (5854679515581645 / 9007199254740992) (3152519739159347 / 4503599627370496) = 4098275660907151 / 9007199254740992"
  unfolding js_mult_def
  by (rule trans[OF round_double_cert[where e = "-2" and m = "8196551321814302"]]) simp_all

lemma dv_18: "js_mult 4 (3602879701896397 / 72057594037927936) = 3602879701896397 / 18014398509481984"
  unfolding js_mult_def
  by (rule trans[OF round_double_exact[where e = "-3" and m = "7205759403792794"]]) simp_all

lemma dv_19: "js_sub (3602879701896397 / 4503599627370496) (3602879701896397 / 18014398509481984) = 1351079888211149 / 2251799813685248"
  unfolding js_sub_def
  by (rule trans[OF round_double_tie_up[where e = "-1" and m = "5404319552844596"]]) simp_all

lemma dv_20: "js_mult (1351079888211149 / 2251799813685248) (3152519739159347 / 4503599627370496) = 3783023686991217 / 9007199254740992"
  unfolding js_mult_def
  by (rule trans[OF round_double_cert[where e = "-2" and m = "7566047373982434"]]) simp_all

lemma dv_21: "js_mult 5 (3602879701896397 / 72057594037927936) = 1 / 4"
  unfolding js_mult_def
  by (rule trans[OF round_double_cert[where e = "-2" and m = "4503599627370496"]]) simp_all

lemma dv_22: "js_sub (3602879701896397 / 4503599627370496) (1 / 4) = 2476979795053773 / 4503599627370496"
  unfolding js_sub_def
  by (rule trans[OF round_double_exact[where e = "-1" and m = "4953959590107546"]]) simp_all

lemma dv_23: "js_mult (2476979795053773 / 4503599627370496) (3152519739159347 / 4503599627370496) = 1733885856537641 / 4503599627370496"
  unfolding js_mult_def
  by (rule trans[OF round_double_cert[where e = "-2" and m = "6935543426150564"]]) simp_all

lemma dv_24: "js_mult 6 (3602879701896397 / 72057594037927936) = 1351079888211149 / 4503599627370496"
  unfolding js_mult_def
  by (rule trans[OF round_double_tie_up[where e = "-2" and m = "5404319552844596"]]) simp_all

lemma dv_25: "js_sub (3602879701896397 / 4503599627370496) (1351079888211149 / 4503599627370496) = 1 / 2"
  unfolding js_sub_def
  by (rule trans[OF round_double_exact[where e = "-1" and m = "4503599627370496"]]) simp_all

lemma dv_26: "js_mult (1 / 2) (3152519739159347 / 4503599627370496) = 3152519739159347 / 9007199254740992"
  unfolding js_mult_def
  by (rule trans[OF round_double_exact[where e = "-2" and m = "6305039478318694"]]) simp_all

lemma dv_27: "js_mult 7 (3602879701896397 / 72057594037927936) = 6305039478318695 / 18014398509481984"
  unfolding js_mult_def
  by (rule trans[OF round_double_cert[where e = "-2" and m = "6305039478318695"]]) simp_all

lemma dv_28: "js_sub (3602879701896397 / 4503599627370496) (6305039478318695 / 18014398509481984) = 8106479329266893 / 18014398509481984"
  unfolding js_sub_def
  by (rule trans[OF round_double_exact[where e = "-2" and m = "8106479329266893"]]) simp_all

lemma dv_29: "js_mult (8106479329266893 / 18014398509481984) (3152519739159347 / 4503599627370496) = 5674535530486825 / 18014398509481984"
  unfolding js_mult_def
  by (rule trans[OF round_double_cert[where e = "-2" and m = "5674535530486825"]]) simp_all

lemma dv_30: "js_mult 8 (3602879701896397 / 72057594037927936) = 3602879701896397 / 9007199254740992"
  unfolding js_mult_def
  by (rule trans[OF round_double_exact[where e = "-2" and m = "7205759403792794"]]) simp_all

lemma dv_31: "js_sub (3602879701896397 / 4503599627370496) (3602879701896397 / 9007199254740992) = 3602879701896397 / 9007199254740992"
  unfolding js_sub_def
  by (rule trans[OF round_double_exact[where e = "-2" and m = "7205759403792794"]]) simp_all

lemma dv_32: "js_mult (3602879701896397 / 9007199254740992) (3152519739159347 / 4503599627370496) = 5044031582654955 / 18014398509481984"
  unfolding js_mult_def
  by (rule trans[OF round_double_cert[where e = "-2" and m = "5044031582654955"]]) simp_all

lemma dv_33: "js_mult 9 (3602879701896397 / 72057594037927936) = 8106479329266893 / 18014398509481984"
  unfolding js_mult_def
  by (rule trans[OF round_double_cert[where e = "-2" and m = "8106479329266893"]]) simp_all

lemma dv_34: "js_sub (3602879701896397 / 4503599627370496) (8106479329266893 / 18014398509481984) = 6305039478318695 / 18014398509481984"
  unfolding js_sub_def
  by (rule trans[OF round_double_exact[where e = "-2" and m = "6305039478318695"]]) simp_all

lemma dv_35: "js_mult (6305039478318695 / 18014398509481984) (3152519739159347 / 4503599627370496) = 2206763817411543 / 9007199254740992"
  unfolding js_mult_def
  by (rule trans[OF round_double_cert[where e = "-3" and m = "8827055269646172"]]) simp_all

lemma dv_36: "js_mult 1 (3602879701896397 / 36028797018963968) = 3602879701896397 / 36028797018963968"
  unfolding js_mult_def
  by (rule trans[OF round_double_exact[where e = "-4" and m = "7205759403792794"]]) simp_all

lemma dv_37: "js_add 1 (3602879701896397 / 36028797018963968) = 2476979795053773 / 2251799813685248"
  unfolding js_add_def
  by (rule trans[OF round_double_cert[where e = "0" and m = "4953959590107546"]]) simp_all

lemma dv_38: "js_mult (1182194902184755 / 2251799813685248) (2476979795053773 / 2251799813685248) = 2600828784806461 / 4503599627370496"
  unfolding js_mult_def
  by (rule trans[OF round_double_cert[where e = "-1" and m = "5201657569612922"]]) simp_all

lemma dv_39: "js_mult 2 (3602879701896397 / 36028797018963968) = 3602879701896397 / 18014398509481984"
  unfolding js_mult_def
  by (rule trans[OF round_double_exact[where e = "-3" and m = "7205759403792794"]]) simp_all

lemma dv_40: "js_add 1 (3602879701896397 / 18014398509481984) = 5404319552844595 / 4503599627370496"
  unfolding js_add_def
  by (rule trans[OF round_double_cert[where e = "0" and m = "5404319552844595"]]) simp_all

lemma dv_41: "js_mult (2206763817411543 / 4503599627370496) (5404319552844595 / 4503599627370496) = 5296233161787703 / 9007199254740992"
  unfolding js_mult_def
  by (rule trans[OF round_double_cert[where e = "-1" and m = "5296233161787703"]]) simp_all

lemma dv_42: "js_mult 3 (3602879701896397 / 36028797018963968) = 1351079888211149 / 4503599627370496"
  unfolding js_mult_def
  by (rule trans[OF round_double_tie_up[where e = "-2" and m = "5404319552844596"]]) simp_all

lemma dv_43: "js_add 1 (1351079888211149 / 4503599627370496) = 5854679515581645 / 4503599627370496"
  unfolding js_add_def
  by (rule trans[OF round_double_exact[where e = "0" and m = "5854679515581645"]]) simp_all

lemma dv_44: "js_mult (4098275660907151 / 9007199254740992) (5854679515581645 / 4503599627370496) = 166492448724353 / 281474976710656"
  unfolding js_mult_def
  by (rule trans[OF round_double_cert[where e = "-1" and m = "5327758359179296"]]) simp_all

lemma dv_45: "js_mult 4 (3602879701896397 / 36028797018963968) = 3602879701896397 / 9007199254740992"
  unfolding js_mult_def
  by (rule trans[OF round_double_exact[where e = "-2" and m = "7205759403792794"]]) simp_all

lemma dv_46: "js_add 1 (3602879701896397 / 9007199254740992) = 3152519739159347 / 2251799813685248"
  unfolding js_add_def
  by (rule trans[OF round_double_tie_down[where e = "0" and m = "6305039478318694"]]) simp_all

lemma dv_47: "js_mult (3783023686991217 / 9007199254740992) (3152519739159347 / 2251799813685248) = 5296233161787703 / 9007199254740992"
  unfolding js_mult_def
  by (rule trans[OF round_double_cert[where e = "-1" and m = "5296233161787703"]]) simp_all

lemma dv_48: "js_mult 5 (3602879701896397 / 36028797018963968) = 1 / 2"
  unfolding js_mult_def
  by (rule trans[OF round_double_cert[where e = "-1" and m = "4503599627370496"]]) simp_all

lemma dv_49: "js_add 1 (1 / 2) = 3 / 2"
  unfolding js_add_def
  by (rule trans[OF round_double_exact[where e = "0" and m = "6755399441055744"]]) simp_all

lemma dv_50: "js_mult (1733885856537641 / 4503599627370496) (3 / 2) = 5201657569612923 / 9007199254740992"
  unfolding js_mult_def
  by (rule trans[OF round_double_exact[where e = "-1" and m = "5201657569612923"]]) simp_all

lemma dv_51: "js_mult 7 (3602879701896397 / 36028797018963968) = 6305039478318695 / 9007199254740992"
  unfolding js_mult_def
  by (rule trans[OF round_double_cert[where e = "-1" and m = "6305039478318695"]]) simp_all

lemma dv_52: "js_add 1 (6305039478318695 / 9007199254740992) = 1914029841632461 / 1125899906842624"
  unfolding js_add_def
  by (rule trans[OF round_double_tie_up[where e = "0" and m = "7656119366529844"]]) simp_all

lemma dv_53: "js_mult (3152519739159347 / 9007199254740992) (1914029841632461 / 1125899906842624) = 2679641778285445 / 4503599627370496"
  unfolding js_mult_def
  by (rule trans[OF round_double_cert[where e = "-1" and m = "5359283556570890"]]) simp_all

lemma dv_54: "js_mult 8 (3602879701896397 / 36028797018963968) = 3602879701896397 / 4503599627370496"
  unfolding js_mult_def
  by (rule trans[OF round_double_exact[where e = "-1" and m = "7205759403792794"]]) simp_all

lemma dv_55: "js_add 1 (3602879701896397 / 4503599627370496) = 8106479329266893 / 4503599627370496"
  unfolding js_add_def
  by (rule trans[OF round_double_exact[where e = "0" and m = "8106479329266893"]]) simp_all

lemma dv_56: "js_mult (5674535530486825 / 18014398509481984) (8106479329266893 / 4503599627370496) = 5107081977438143 / 9007199254740992"
  unfolding js_mult_def
  by (rule trans[OF round_double_cert[where e = "-1" and m = "5107081977438143"]]) simp_all

lemma dv_57: "js_mult 11 (3602879701896397 / 36028797018963968) = 2476979795053773 / 2251799813685248"
  unfolding js_mult_def
  by (rule trans[OF round_double_cert[where e = "0" and m = "4953959590107546"]]) simp_all

lemma dv_58: "js_add 1 (2476979795053773 / 2251799813685248) = 4728779608739021 / 2251799813685248"
  unfolding js_add_def
  by (rule trans[OF round_double_exact[where e = "1" and m = "4728779608739021"]]) simp_all

lemma dv_59: "js_mult (5044031582654955 / 18014398509481984) (4728779608739021 / 2251799813685248) = 5296233161787703 / 9007199254740992"
  unfolding js_mult_def
  by (rule trans[OF round_double_cert[where e = "-1" and m = "5296233161787703"]]) simp_all

lemma dv_60: "js_mult 13 (3602879701896397 / 36028797018963968) = 5854679515581645 / 4503599627370496"
  unfolding js_mult_def
  by (rule trans[OF round_double_cert[where e = "0" and m = "5854679515581645"]]) simp_all

lemma dv_61: "js_add 1 (5854679515581645 / 4503599627370496) = 2589569785738035 / 1125899906842624"
  unfolding js_add_def
  by (rule trans[OF round_double_tie_down[where e = "1" and m = "5179139571476070"]]) simp_all

lemma dv_62: "js_mult (2206763817411543 / 9007199254740992) (2589569785738035 / 1125899906842624) = 5075556780046549 / 9007199254740992"
  unfolding js_mult_def
  by (rule trans[OF round_double_cert[where e = "-1" and m = "5075556780046549"]]) simp_all

lemma dv_63: "js_mult 0 (3602879701896397 / 36028797018963968) = 0"
  by (simp add: js_mult_def round_double_def)

lemma dv_64: "js_add 1 0 = 1"
  unfolding js_add_def
  by (rule trans[OF round_double_exact[where e = "0" and m = "4503599627370496"]]) simp_all

lemma dv_65: "js_mult (5044031582654955 / 9007199254740992) 1 = 5044031582654955 / 9007199254740992"
  unfolding js_mult_def
  by (rule trans[OF round_double_exact[where e = "-1" and m = "5044031582654955"]]) simp_all

lemma dv_66: "js_mult (2206763817411543 / 9007199254740992) (5404319552844595 / 4503599627370496) = 5296233161787703 / 18014398509481984"
  unfolding js_mult_def
  by (rule trans[OF round_double_cert[where e = "-2" and m = "5296233161787703"]]) simp_all

lemma dv_67: "js_mult 1 (3152519739159347 / 4503599627370496) = 3152519739159347 / 4503599627370496"
  unfolding js_mult_def
  by (rule trans[OF round_double_exact[where e = "-1" and m = "6305039478318694"]]) simp_all

lemma dv_68: "js_mult (3152519739159347 / 4503599627370496) (5404319552844595 / 4503599627370496) = 7566047373982433 / 9007199254740992"
  unfolding js_mult_def
  by (rule trans[OF round_double_cert[where e = "-1" and m = "7566047373982433"]]) simp_all

lemma dv_69: "js_mult (3152519739159347 / 4503599627370496) (2476979795053773 / 2251799813685248) = 1733885856537641 / 2251799813685248"
  unfolding js_mult_def
  by (rule trans[OF round_double_cert[where e = "-1" and m = "6935543426150564"]]) simp_all

lemma dv_70: "literal (3 / 50) = 1080863910568919 / 18014398509481984"
  unfolding literal_def
  by (rule trans[OF round_double_cert[where e = "-5" and m = "8646911284551352"]]) simp_all

lemma dv_71: "js_mult (1080863910568919 / 18014398509481984) (3152519739159347 / 4503599627370496) = 3026418949592973 / 72057594037927936"
  unfolding js_mult_def
  by (rule trans[OF round_double_cert[where e = "-5" and m = "6052837899185946"]]) simp_all

lemma dv_72: "literal (7 / 50) = 1261007895663739 / 9007199254740992"
  unfolding literal_def
  by (rule trans[OF round_double_cert[where e = "-3" and m = "5044031582654956"]]) simp_all

lemma dv_73: "js_mult (1261007895663739 / 9007199254740992) (5404319552844595 / 18014398509481984) = 6052837899185947 / 144115188075855872"
  unfolding js_mult_def
  by (rule trans[OF round_double_cert[where e = "-5" and m = "6052837899185947"]]) simp_all

lemma dv_74: "js_div 1 4 = 1 / 4"
  unfolding js_div_def
  by (rule trans[OF round_double_exact[where e = "-2" and m = "4503599627370496"]]) simp_all

lemma dv_75: "js_mult (1 / 4) 20 = 5"
  unfolding js_mult_def
  by (rule trans[OF round_double_exact[where e = "2" and m = "5629499534213120"]]) simp_all

lemma dv_76: "js_add (1 / 4) (1 / 4) = 1 / 2"
  unfolding js_add_def
  by (rule trans[OF round_double_exact[where e = "-1" and m = "4503599627370496"]]) simp_all

lemma dv_77: "js_mult (1 / 2) 20 = 10"
  unfolding js_mult_def
  by (rule trans[OF round_double_exact[where e = "3" and m = "5629499534213120"]]) simp_all

lemma dv_78: "js_div 0 1 = 0"
  by (simp add: js_div_def round_double_def)

lemma dv_79: "js_mult 0 75 = 0"
  by (simp add: js_mult_def round_double_def)

lemma dv_80: "js_div 1 1 = 1"
  unfolding js_div_def
  by (rule trans[OF round_double_exact[where e = "0" and m = "4503599627370496"]]) simp_all

lemma dv_81: "js_add 0 1 = 1"
  unfolding js_add_def
  by (rule trans[OF round_double_exact[where e = "0" and m = "4503599627370496"]]) simp_all

lemma dv_82: "js_mult 1 75 = 75"
  unfolding js_mult_def
  by (rule trans[OF round_double_exact[where e = "6" and m = "5277655813324800"]]) simp_all

lemma dv_83: "js_div 4 6 = 6004799503160661 / 9007199254740992"
  unfolding js_div_def
  by (rule trans[OF round_double_cert[where e = "-1" and m = "6004799503160661"]]) simp_all

lemma dv_84: "js_div 1 6 = 6004799503160661 / 36028797018963968"
  unfolding js_div_def
  by (rule trans[OF round_double_cert[where e = "-3" and m = "6004799503160661"]]) simp_all

lemma dv_85: "js_add (6004799503160661 / 9007199254740992) (6004799503160661 / 36028797018963968) = 3752999689475413 / 4503599627370496"
  unfolding js_add_def
  by (rule trans[OF round_double_cert[where e = "-1" and m = "7505999378950826"]]) simp_all

lemma dv_86: "js_mult (3752999689475413 / 4503599627370496) 18 = 8444249301319679 / 562949953421312"
  unfolding js_mult_def
  by (rule trans[OF round_double_cert[where e = "3" and m = "8444249301319679"]]) simp_all

lemma dv_87: "js_div 5 6 = 7505999378950827 / 9007199254740992"
  unfolding js_div_def
  by (rule trans[OF round_double_cert[where e = "-1" and m = "7505999378950827"]]) simp_all

lemma dv_88: "js_mult (7505999378950827 / 9007199254740992) 18 = 15"
  unfolding js_mult_def
  by (rule trans[OF round_double_cert[where e = "3" and m = "8444249301319680"]]) simp_all

lemma dv_89: "\<lfloor>8444249301319679 / 562949953421312 :: rat\<rfloor> = 14"
  by (simp add: floor_eq_iff)

lemma dv_90: "js_mult (6004799503160661 / 9007199254740992) 18 = 12"
  unfolding js_mult_def
  by (rule trans[OF round_double_cert[where e = "3" and m = "6755399441055744"]]) simp_all

lemma dv_91: "js_div 7 10 = 3152519739159347 / 4503599627370496"
  unfolding js_div_def
  by (rule trans[OF round_double_cert[where e = "-1" and m = "6305039478318694"]]) simp_all

lemma dv_92: "js_mult (3152519739159347 / 4503599627370496) 90 = 8866461766385663 / 140737488355328"
  unfolding js_mult_def
  by (rule trans[OF round_double_cert[where e = "5" and m = "8866461766385663"]]) simp_all

lemma dv_93: "\<lfloor>8866461766385663 / 140737488355328 :: rat\<rfloor> = 62"
  by (simp add: floor_eq_iff)

lemma dv_94: "js_mult 400 (3152519739159347 / 4503599627370496) = 280"
  unfolding js_mult_def
  by (rule trans[OF round_double_cert[where e = "8" and m = "4925812092436480"]]) simp_all

lemma dv_95: "js_mult 280 (3602879701896397 / 36028797018963968) = 28"
  unfolding js_mult_def
  by (rule trans[OF round_double_cert[where e = "4" and m = "7881299347898368"]]) simp_all

lemma dv_96: "js_mult 400 (3602879701896397 / 4503599627370496) = 320"
  unfolding js_mult_def
  by (rule trans[OF round_double_cert[where e = "8" and m = "5629499534213120"]]) simp_all

lemmas double_values = dv_1 dv_2 dv_3 dv_4 dv_5 dv_6 dv_7 dv_8 dv_9 dv_10 dv_11 dv_12 dv_13 dv_14 dv_15 dv_16 dv_17 dv_18 dv_19 dv_20 dv_21 dv_22 dv_23 dv_24 dv_25 dv_26 dv_27 dv_28 dv_29 dv_30 dv_31 dv_32 dv_33 dv_34 dv_35 dv_36 dv_37 dv_38 dv_39 dv_40 dv_41 dv_42 dv_43 dv_44 dv_45 dv_46 dv_47 dv_48 dv_49 dv_50 dv_51 dv_52 dv_53 dv_54 dv_55 dv_56 dv_57 dv_58 dv_59 dv_60 dv_61 dv_62 dv_63 dv_64 dv_65 dv_66 dv_67 dv_68 dv_69 dv_70 dv_71 dv_72 dv_73 dv_74 dv_75 dv_76 dv_77 dv_78 dv_79 dv_80 dv_81 dv_82 dv_83 dv_84 dv_85 dv_86 dv_87 dv_88 dv_89 dv_90 dv_91 dv_92 dv_93 dv_94 dv_95 dv_96

section \<open>Properties of fusion and ranking\<close>

lemma find_append:
  "find P (xs @ ys) = (case find P xs of None \<Rightarrow> find P ys | Some x \<Rightarrow> Some x)"
  by (induction xs) auto

lemma uniqueResults_Nil: "uniqueResults [] = []"
  by (simp add: uniqueResults_def)

lemma uniqueResults_snoc:
  "uniqueResults (xs @ [x]) =
     uniqueResults xs @ (if list_ex (\<lambda>prev. same_prefix prev x) xs then [] else [x])"
proof -
  have "filter (\<lambda>(index, r). \<not> list_ex (\<lambda>prev. same_prefix prev r) (take index (xs @ [x])))
          (enumerate 0 xs)
      = filter (\<lambda>(index, r). \<not> list_ex (\<lambda>prev. same_prefix prev r) (take index xs))
          (enumerate 0 xs)"
    by (rule filter_cong) (auto simp: in_set_enumerate_eq)
  then show ?thesis
    by (simp add: uniqueResults_def enumerate_append_eq)
qed

lemma set_uniqueResults_subset: "set (uniqueResults xs) \<subseteq> set xs"
  by (induction xs rule: rev_induct) (auto simp: uniqueResults_Nil uniqueResults_snoc)




lemma sort_desc_mset: "mset (sort_desc rs) = mset rs"
  by (simp add: sort_desc_def)

lemma sort_desc_sorted: "sorted_wrt (\<lambda>a b. score b \<le> score a) (sort_desc rs)"
proof -
  have "sorted (map (\<lambda>r. - score r) (sort_desc rs))"
    by (simp add: sort_desc_def)
  then show ?thesis by (simp add: sorted_map)
qed

lemma sort_desc_stable:
  "filter (\<lambda>r. score r = v) (sort_desc rs) = filter (\<lambda>r. score r = v) rs"
proof -
  have "filter (\<lambda>r. - score r = - v) (sort_key (\<lambda>r. - score r) rs)
      = filter (\<lambda>r. - score r = - v) rs"
    by (rule sort_key_stable)
  then show ?thesis by (simp add: sort_desc_def)
qed



lemma uniqueResults_distinct:
  "distinct (map (\<lambda>r. substring0 100 (result_text r)) xs) \<Longrightarrow> uniqueResults xs = xs"
proof (induction xs rule: rev_induct)
  case Nil
  show ?case by (simp add: uniqueResults_Nil)
next
  case (snoc x xs)
  then have "substring0 100 (result_text x) \<notin> (\<lambda>r. substring0 100 (result_text r)) ` set xs"
    by simp
  then have "\<not> list_ex (\<lambda>prev. same_prefix prev x) xs"
    by (auto simp: list_ex_iff same_prefix_def image_iff)
  with snoc show ?case by (simp add: uniqueResults_snoc)
qed







lemma keywordMatches_text:
  "keywordMatches q r = keywordMatches q (mk_result (result_text r) 0 Semantic)"
  by (simp add: keywordMatches_def mk_result_def)



subsection \<open>Monotonicity of the scores\<close>










subsection \<open>Scores and ranking\<close>

text \<open>
  Claim C7, as amended. \<open>fuseAndRankResults\<close> scores every deduplicated candidate in double
  arithmetic: the score times the source weight (the double 0.7 for a semantic candidate, the
  double 0.3 for a keyword candidate), rounded, and for a positive \<open>k\<close> that product times
  \<open>1 + k * 0.1\<close>, where \<open>k * 0.1\<close>, the sum and the product are each rounded; \<open>k\<close> counts
  the whitespace-separated words of the lower-cased query, repetitions included, that are
  longer than 2 and occur in the lower-cased candidate text.
  The result is the candidates in descending order of that score, candidates of equal score in
  their input order (the ranking is a stable sort: it has the same elements as the scored list,
  is sorted, and keeps the order of equal scores), cut to the first \<open>limit\<close> entries.
\<close>

theorem fuseAndRank_ranking:
  "(let scored = map (scoreResult q) (uniqueResults (sem @ kw));
        ranked = sort_desc scored
    in fuseAndRankResults sem kw q limit = slice0 limit ranked
       \<and> (0 \<le> limit \<longrightarrow> fuseAndRankResults sem kw q limit = take (nat limit) ranked)
       \<and> mset ranked = mset scored
       \<and> sorted_wrt (\<lambda>a b. score b \<le> score a) ranked
       \<and> (\<forall>v. filter (\<lambda>x. score x = v) ranked = filter (\<lambda>x. score x = v) scored))
   \<and> score (scoreResult q r) =
        (let w = (if source r = Semantic then js_mult (score r) (literal 0.7)
                  else if source r = Keyword then js_mult (score r) (literal 0.3) else score r);
             k = length (filter (\<lambda>word. length word > 2 \<and> str_includes (toLowerCase (result_text r)) word)
                           (split_whitespace (toLowerCase q)))
         in if k > 0 then js_mult w (js_add 1 (js_mult (of_nat k) (literal 0.1))) else w)
   \<and> source (scoreResult q r) = Hybrid \<and> result_text (scoreResult q r) = result_text r"
  by (simp add: Let_def fuseAndRankResults_def slice0_def sort_desc_mset sort_desc_sorted
      sort_desc_stable scoreResult_def hybridScore_def weighted_def boosted_def keywordMatches_def)


theorem fuseAndRank_ranking_witness:
  "(0::int) \<le> 5 \<and>
   fuseAndRankResults [mk_result ''dog one'' 0.5 Semantic, mk_result ''the cat sat'' 0.75 Semantic]
       [mk_result ''the cat sat'' 5 Keyword, mk_result ''cat toy'' 2 Keyword] ''cat'' 5
     = take (nat 5) (sort_desc (map (scoreResult ''cat'')
         (uniqueResults ([mk_result ''dog one'' 0.5 Semantic, mk_result ''the cat sat'' 0.75 Semantic]
            @ [mk_result ''the cat sat'' 5 Keyword, mk_result ''cat toy'' 2 Keyword]))))"
  using fuseAndRank_ranking [of "''cat''"
      "[mk_result ''dog one'' 0.5 Semantic, mk_result ''the cat sat'' 0.75 Semantic]"
      "[mk_result ''the cat sat'' 5 Keyword, mk_result ''cat toy'' 2 Keyword]" 5]
  unfolding Let_def by fastforce

text \<open>
  The rounding decides the order: a semantic candidate of score 0.06 and a keyword candidate
  of score 0.14 have the same exact product 0.042, and the code ranks the keyword candidate
  first, because the double product \<open>0.06 * 0.7\<close> is below the double product \<open>0.14 * 0.3\<close>.
\<close>

lemma fuseAndRank_rounding_example:
  "js_mult (literal 0.06) (literal 0.7) < js_mult (literal 0.14) (literal 0.3) \<and>
   map result_text
     (fuseAndRankResults [mk_result ''CAT'' (literal 0.06) Semantic]
        [mk_result ''dog two'' (literal 0.14) Keyword] ''fish'' 5)
   = [''dog two'', ''CAT'']"
proof -
  let ?a = "mk_result ''CAT'' (literal 0.06) Semantic"
  let ?b = "mk_result ''dog two'' (literal 0.14) Keyword"
  have lt: "js_mult (literal 0.06) (literal 0.7) < js_mult (literal 0.14) (literal 0.3)"
    by (simp add: double_values)
  have "distinct (map (\<lambda>r. substring0 100 (result_text r)) ([?a] @ [?b]))"
    by (simp add: mk_result_def substring0_def)
  then have U: "uniqueResults ([?a] @ [?b]) = [?a] @ [?b]" by (rule uniqueResults_distinct)
  have ka: "keywordMatches ''fish'' (mk_result ''CAT'' 0 Semantic) = 0"
    and kb: "keywordMatches ''fish'' (mk_result ''dog two'' 0 Semantic) = 0"
    by code_simp+
  have k: "keywordMatches ''fish'' ?a = 0" "keywordMatches ''fish'' ?b = 0"
    using ka kb keywordMatches_text[of "''fish''" ?a] keywordMatches_text[of "''fish''" ?b]
    by (simp_all add: mk_result_def)
  have sa: "score (scoreResult ''fish'' ?a) = js_mult (literal 0.06) (literal 0.7)"
    and sb: "score (scoreResult ''fish'' ?b) = js_mult (literal 0.14) (literal 0.3)"
    using k by (simp_all add: scoreResult_def hybridScore_def weighted_def mk_result_def)
  have "sort_desc [scoreResult ''fish'' ?a, scoreResult ''fish'' ?b]
      = [scoreResult ''fish'' ?b, scoreResult ''fish'' ?a]"
    using lt sa sb by (simp add: sort_desc_def)
  then have "fuseAndRankResults [?a] [?b] ''fish'' 5 = [scoreResult ''fish'' ?b, scoreResult ''fish'' ?a]"
    using U by (simp add: fuseAndRankResults_def slice0_def Let_def)
  then show ?thesis using lt by (simp add: scoreResult_def mk_result_def)
qed

text \<open>
  The claim as written counts the distinct query words. The code counts every occurrence
  in the query: for the query \<open>cat cat\<close> and the text \<open>cat\<close> the factor is \<open>1 + 2 * 0.1\<close>,
  not \<open>1 + 1 * 0.1\<close>.
\<close>

lemma keywordMatches_cat_cat: "keywordMatches ''cat cat'' (mk_result ''cat'' 1 Semantic) = 2"
  by code_simp

lemma distinctKeywordMatches_cat_cat: "distinctKeywordMatches ''cat cat'' (mk_result ''cat'' 1 Semantic) = 1"
  by code_simp

theorem fuseAndRank_distinct_words_counterexample:
  "keywordMatches ''cat cat'' (mk_result ''cat'' 1 Semantic) = 2 \<and>
   distinctKeywordMatches ''cat cat'' (mk_result ''cat'' 1 Semantic) = 1 \<and>
   hybridScore ''cat cat'' (mk_result ''cat'' 1 Semantic)
     = js_mult (js_mult 1 (literal 0.7)) (js_add 1 (js_mult 2 (literal 0.1))) \<and>
   claimedHybridScore ''cat cat'' (mk_result ''cat'' 1 Semantic)
     = js_mult (js_mult 1 (literal 0.7)) (js_add 1 (js_mult 1 (literal 0.1))) \<and>
   claimedHybridScore ''cat cat'' (mk_result ''cat'' 1 Semantic) < 0.8 \<and>
   0.8 < hybridScore ''cat cat'' (mk_result ''cat'' 1 Semantic)"
proof -
  have w: "weighted (mk_result ''cat'' 1 Semantic) = js_mult 1 (literal 0.7)"
    by (simp add: weighted_def mk_result_def)
  have h: "hybridScore ''cat cat'' (mk_result ''cat'' 1 Semantic)
     = js_mult (js_mult 1 (literal 0.7)) (js_add 1 (js_mult 2 (literal 0.1)))"
    by (simp add: hybridScore_def keywordMatches_cat_cat w boosted_def)
  have c: "claimedHybridScore ''cat cat'' (mk_result ''cat'' 1 Semantic)
     = js_mult (js_mult 1 (literal 0.7)) (js_add 1 (js_mult 1 (literal 0.1)))"
    by (simp add: claimedHybridScore_def distinctKeywordMatches_cat_cat w boosted_def)
  have v: "js_mult (js_mult 1 (literal 0.7)) (js_add 1 (js_mult 1 (literal 0.1))) < 0.8"
    "0.8 < js_mult (js_mult 1 (literal 0.7)) (js_add 1 (js_mult 2 (literal 0.1)))"
    by (simp_all add: double_values)
  show ?thesis
    using v by (simp only: h c keywordMatches_cat_cat distinctKeywordMatches_cat_cat)
qed

subsection \<open>The chunk that contains the query words\<close>





subsection \<open>Deduplication prefers the semantic candidate\<close>




section \<open>Properties of timestamp matching\<close>

lemma starts_with_iff: "starts_with s p \<longleftrightarrow> (\<exists>v. s = p @ v)"
  by (induction s p rule: starts_with.induct) auto

lemma str_includes_iff: "str_includes s p \<longleftrightarrow> (\<exists>u v. s = u @ p @ v)"
proof (induction s)
  case Nil
  show ?case by simp
next
  case (Cons c cs)
  show ?case
  proof
    assume "str_includes (c # cs) p"
    then consider "starts_with (c # cs) p" | "str_includes cs p" by auto
    then show "\<exists>u v. c # cs = u @ p @ v"
    proof cases
      case 1
      then obtain v where "c # cs = p @ v" by (auto simp: starts_with_iff)
      then have "c # cs = [] @ p @ v" by simp
      then show ?thesis by blast
    next
      case 2
      with Cons obtain u v where "cs = u @ p @ v" by auto
      then have "c # cs = (c # u) @ p @ v" by simp
      then show ?thesis by blast
    qed
  next
    assume "\<exists>u v. c # cs = u @ p @ v"
    then obtain u v where uv: "c # cs = u @ p @ v" by auto
    show "str_includes (c # cs) p"
    proof (cases u)
      case Nil
      with uv have "starts_with (c # cs) p" by (auto simp: starts_with_iff)
      then show ?thesis by simp
    next
      case (Cons a u')
      with uv have "cs = u' @ p @ v" by simp
      with Cons.IH have "str_includes cs p" by blast
      then show ?thesis by simp
    qed
  qed
qed

lemma find_matching_segment_find:
  "find_matching_segment fp (preprocessTimestampSegments segments) =
     find (\<lambda>seg. fingerprints_match fp (segmentFingerprint (segment_text seg))) segments"
  by (induction segments) (simp_all add: preprocessTimestampSegments_def)

lemma proportional_pos:
  "0 < n \<Longrightarrow> proportional i n d =
     (Num (nat \<lfloor>js_mult (js_div (of_nat i) (of_nat n)) (of_nat d)\<rfloor>),
      Num (nat \<lfloor>js_mult (js_add (js_div (of_nat i) (of_nat n)) (js_div 1 (of_nat n))) (of_nat d)\<rfloor>))"
  by (simp add: proportional_def Let_def)

lemma proportional_start_mono:
  "nat \<lfloor>js_mult (js_div (of_nat i) (of_nat n)) (of_nat d)\<rfloor>
     \<le> nat \<lfloor>js_mult (js_div (of_nat (i + 1)) (of_nat n)) (of_nat d)\<rfloor>"
proof -
  have "js_div (of_nat i) (of_nat n) \<le> js_div (of_nat (i + 1)) (of_nat n)"
    by (intro js_div_mono_left) simp_all
  moreover have "0 \<le> js_div (of_nat i) (of_nat n)"
    by (intro js_div_nonneg) simp_all
  ultimately have "js_mult (js_div (of_nat i) (of_nat n)) (of_nat d)
      \<le> js_mult (js_div (of_nat (i + 1)) (of_nat n)) (of_nat d)"
    by (intro js_mult_mono_left) simp_all
  then show ?thesis by (intro nat_mono floor_mono)
qed

lemma is_space_toLowerChar: "is_space (toLowerChar c) = is_space c"
proof -
  have "of_char (char_of (of_char c + 32 :: nat)) = (of_char c + 32 :: nat)"
    if "(of_char c :: nat) \<le> 222"
    using that by simp
  then show ?thesis
    by (auto simp: is_space_def toLowerChar_def Let_def)
qed

lemma toLowerCase_dropWhile:
  "toLowerCase (dropWhile is_space s) = dropWhile is_space (toLowerCase s)"
  by (induction s) (simp_all add: toLowerCase_def is_space_toLowerChar)

lemma toLowerCase_trim: "toLowerCase (trim s) = trim (toLowerCase s)"
proof -
  have rev_lower: "\<And>xs. rev (toLowerCase xs) = toLowerCase (rev xs)"
    by (simp add: toLowerCase_def rev_map)
  show ?thesis
    unfolding trim_def
    by (simp only: rev_lower toLowerCase_dropWhile flip: rev_lower)
qed

lemma split_ws_gap_spaces:
  "\<forall>c\<in>set sp. is_space c \<Longrightarrow> split_ws_gap (sp @ z) = split_ws_gap z"
  by (induction sp) simp_all

lemma split_ws_gap_start:
  "z = [] \<or> \<not> is_space (hd z) \<Longrightarrow> filter F (split_ws_gap z) = filter F (split_ws [] z)"
  by (cases z) auto

lemma split_ws_leading:
  "filter F (split_ws [] (dropWhile is_space y)) = filter F (split_ws [] y)" if "\<not> F []"
proof (cases "takeWhile is_space y")
  case Nil
  then have "dropWhile is_space y = y"
    by (metis append_Nil takeWhile_dropWhile_id)
  then show ?thesis by simp
next
  case (Cons s sp)
  let ?z = "dropWhile is_space y"
  have all: "\<forall>c\<in>set (s # sp). is_space c"
    using Cons by (metis set_takeWhileD)
  have y: "y = s # (sp @ ?z)"
    using Cons by (metis append_Cons takeWhile_dropWhile_id)
  have z: "?z = [] \<or> \<not> is_space (hd ?z)"
    by (metis hd_dropWhile)
  have "split_ws [] y = [] # split_ws_gap (sp @ ?z)"
    using all by (subst y) simp
  also have "\<dots> = [] # split_ws_gap ?z"
    using all by (simp add: split_ws_gap_spaces)
  finally have "filter F (split_ws [] y) = filter F (split_ws_gap ?z)"
    using that by simp
  with split_ws_gap_start[where F = F, OF z] show ?thesis by simp
qed

lemma split_ws_trailing:
  assumes "\<not> F []" "\<forall>c\<in>set sp. is_space c"
  shows "filter F (split_ws cur (z @ sp)) = filter F (split_ws cur z)"
    and "filter F (split_ws_gap (z @ sp)) = filter F (split_ws_gap z)"
proof (induction cur z and z rule: split_ws_split_ws_gap.induct)
  case (1 cur)
  have "split_ws_gap (tl sp @ []) = split_ws_gap []"
    using assms(2) by (intro split_ws_gap_spaces) (cases sp; auto)
  then show ?case using assms by (cases sp) auto
next
  case (2 cur c cs)
  then show ?case by simp
next
  case 3
  have "split_ws_gap (sp @ []) = split_ws_gap []"
    using assms(2) by (intro split_ws_gap_spaces)
  then show ?case by simp
next
  case (4 c cs)
  then show ?case by simp
qed

lemma split_whitespace_trim:
  assumes "\<not> F []"
  shows "filter F (split_whitespace (trim y)) = filter F (split_whitespace y)"
proof -
  let ?z = "dropWhile is_space y"
  let ?sp = "rev (takeWhile is_space (rev ?z))"
  have "rev ?z = takeWhile is_space (rev ?z) @ dropWhile is_space (rev ?z)" by simp
  then have "?z = trim y @ ?sp"
    unfolding trim_def by (metis rev_append rev_rev_ident)
  moreover have sp: "\<forall>c\<in>set ?sp. is_space c"
    by (auto dest: set_takeWhileD)
  ultimately have "filter F (split_ws [] ?z) = filter F (split_ws [] (trim y))"
    using split_ws_trailing(1)[where F = F and sp = ?sp and cur = "[]" and z = "trim y", OF assms sp]
    by simp
  with split_ws_leading[where F = F and y = y, OF assms] show ?thesis
    by (simp add: split_whitespace_def)
qed

lemma segmentFingerprint_chunkFingerprint:
  "segmentFingerprint t = chunkFingerprint (remove_timestamps t)"
  by (simp add: segmentFingerprint_def chunkFingerprint_def fingerprint_words_def
      toLowerCase_trim split_whitespace_trim)

lemma find_takeWhile:
  "find P xs = (if length (takeWhile (\<lambda>x. \<not> P x) xs) < length xs
                then Some (xs ! length (takeWhile (\<lambda>x. \<not> P x) xs)) else None)"
  by (induction xs) auto

lemma matchChunkToTimestamp_matched:
  assumes "first_match_index c segments < length segments"
  shows "matchChunkToTimestamp c segments i n =
           \<lparr>startTime = Num (timestampSeconds (segments ! first_match_index c segments)),
            endTime = Num (endSeconds (segments ! first_match_index c segments)),
            matched = True,
            matchDisplay = Some (timestampDisplay (segments ! first_match_index c segments))\<rparr>"
proof -
  from assms have "segments \<noteq> []" by auto
  moreover have "find_matching_segment (chunkFingerprint c) (preprocessTimestampSegments segments)
      = Some (segments ! first_match_index c segments)"
    using assms unfolding find_matching_segment_find first_match_index_def
    by (subst find_takeWhile) simp
  ultimately show ?thesis by (simp add: matchChunkToTimestamp_def)
qed

lemma matchChunkToTimestamp_unmatched:
  assumes "first_match_index c segments = length segments" "0 < n"
  shows "matchChunkToTimestamp c segments i n =
           (if segments = [] then \<lparr>startTime = Num 0, endTime = Num 0, matched = False, matchDisplay = None\<rparr>
            else \<lparr>startTime = Num (nat \<lfloor>js_mult (js_div (of_nat i) (of_nat n))
                                            (of_nat (endSeconds (last segments)))\<rfloor>),
                  endTime = Num (nat \<lfloor>js_mult (js_add (js_div (of_nat i) (of_nat n)) (js_div 1 (of_nat n)))
                                          (of_nat (endSeconds (last segments)))\<rfloor>),
                  matched = False, matchDisplay = None\<rparr>)"
proof -
  have "find_matching_segment (chunkFingerprint c) (preprocessTimestampSegments segments) = None"
    using assms(1) unfolding find_matching_segment_find first_match_index_def
    by (subst find_takeWhile) simp
  then show ?thesis using assms(2)
    by (simp add: matchChunkToTimestamp_def proportional_pos Let_def)
qed

lemma first_match_index_eq:
  assumes "j < length segments"
    and "fingerprints_match (chunkFingerprint c) (segmentFingerprint (segment_text (segments ! j)))"
    and "\<forall>k<j. \<not> fingerprints_match (chunkFingerprint c) (segmentFingerprint (segment_text (segments ! k)))"
  shows "first_match_index c segments = j"
proof -
  let ?P = "\<lambda>seg. \<not> fingerprints_match (chunkFingerprint c) (segmentFingerprint (segment_text seg))"
  have "takeWhile ?P segments = take j segments"
  proof (rule takeWhile_eq_take_P_nth)
    show "\<And>i. i < j \<Longrightarrow> i < length segments \<Longrightarrow> ?P (segments ! i)" using assms(3) by simp
    show "j < length segments \<Longrightarrow> \<not> ?P (segments ! j)" using assms(2) by simp
  qed
  then show ?thesis using assms(1) by (simp add: first_match_index_def)
qed

lemma first_match_index_none:
  assumes "\<forall>k<length segments. \<not> fingerprints_match (chunkFingerprint c) (segmentFingerprint (segment_text (segments ! k)))"
  shows "first_match_index c segments = length segments"
proof -
  have "takeWhile (\<lambda>seg. \<not> fingerprints_match (chunkFingerprint c) (segmentFingerprint (segment_text seg))) segments = segments"
    using assms by (auto simp: takeWhile_eq_all_conv in_set_conv_nth)
  then show ?thesis unfolding first_match_index_def by (rule arg_cong)
qed

subsection \<open>What the matcher returns\<close>

text \<open>
  Claim C4, as amended. The chunk fingerprint lower-cases the text, splits it at whitespace,
  drops the words of length at most 2 and joins the first 20 words with spaces. The segment
  fingerprint is that same fingerprint of the segment text with every match of
  \<open>\d+:\d+\<close> removed first; the chunk text itself is not stripped. A chunk matches a
  segment iff the first 50 characters of either fingerprint occur in the other. On a non-empty
  segment list the first matching segment in list order gives \<open>startTime\<close>, \<open>endTime\<close>
  and \<open>matched = true\<close>; if no segment matches and \<open>totalChunks\<close> is positive the result is
  the proportional fallback with \<open>matched = false\<close>, computed in double arithmetic:
  \<open>startTime = floor ((chunkIndex / totalChunks) * totalDuration)\<close> and
  \<open>endTime = floor ((chunkIndex / totalChunks + 1 / totalChunks) * totalDuration)\<close>, every
  quotient, sum and product rounded, where \<open>totalDuration\<close> is the end of the last segment.
  On an empty segment list the result is \<open>{0, 0, false}\<close>.
\<close>

theorem matchChunkToTimestamp_spec:
  "matchChunkToTimestamp chunk [] i n
     = \<lparr>startTime = Num 0, endTime = Num 0, matched = False, matchDisplay = None\<rparr>
   \<and> chunkFingerprint t
     = join '' '' (take 20 (filter (\<lambda>w. 2 < length w) (split_whitespace (toLowerCase t))))
   \<and> segmentFingerprint t = chunkFingerprint (remove_timestamps t)
   \<and> (fingerprints_match c s \<longleftrightarrow>
        (\<exists>u v. c = u @ take 50 s @ v) \<or> (\<exists>u v. s = u @ take 50 c @ v))
   \<and> (segments \<noteq> [] \<and> j < length segments
        \<and> fingerprints_match (chunkFingerprint chunk) (segmentFingerprint (segment_text (segments ! j)))
        \<and> (\<forall>k<j. \<not> fingerprints_match (chunkFingerprint chunk)
                       (segmentFingerprint (segment_text (segments ! k))))
      \<longrightarrow> matchChunkToTimestamp chunk segments i n
            = \<lparr>startTime = Num (timestampSeconds (segments ! j)),
               endTime = Num (endSeconds (segments ! j)),
               matched = True, matchDisplay = Some (timestampDisplay (segments ! j))\<rparr>)
   \<and> (segments \<noteq> [] \<and> 0 < n
        \<and> (\<forall>k<length segments. \<not> fingerprints_match (chunkFingerprint chunk)
                       (segmentFingerprint (segment_text (segments ! k))))
      \<longrightarrow> matchChunkToTimestamp chunk segments i n
            = \<lparr>startTime = Num (nat \<lfloor>js_mult (js_div (of_nat i) (of_nat n))
                                         (of_nat (endSeconds (last segments)))\<rfloor>),
               endTime = Num (nat \<lfloor>js_mult (js_add (js_div (of_nat i) (of_nat n)) (js_div 1 (of_nat n)))
                                       (of_nat (endSeconds (last segments)))\<rfloor>),
               matched = False, matchDisplay = None\<rparr>)"
proof (intro conjI impI)
  show "matchChunkToTimestamp chunk [] i n
     = \<lparr>startTime = Num 0, endTime = Num 0, matched = False, matchDisplay = None\<rparr>"
    by (simp add: matchChunkToTimestamp_def)
  show "chunkFingerprint t
     = join '' '' (take 20 (filter (\<lambda>w. 2 < length w) (split_whitespace (toLowerCase t))))"
    by (simp add: chunkFingerprint_def fingerprint_words_def)
  show "segmentFingerprint t = chunkFingerprint (remove_timestamps t)"
    by (rule segmentFingerprint_chunkFingerprint)
  show "fingerprints_match c s \<longleftrightarrow>
        (\<exists>u v. c = u @ take 50 s @ v) \<or> (\<exists>u v. s = u @ take 50 c @ v)"
    by (simp add: fingerprints_match_def str_includes_iff substring0_def)
next
  assume a: "segments \<noteq> [] \<and> j < length segments
        \<and> fingerprints_match (chunkFingerprint chunk) (segmentFingerprint (segment_text (segments ! j)))
        \<and> (\<forall>k<j. \<not> fingerprints_match (chunkFingerprint chunk)
                       (segmentFingerprint (segment_text (segments ! k))))"
  then have "first_match_index chunk segments = j"
    by (intro first_match_index_eq) auto
  with a matchChunkToTimestamp_matched[of chunk segments i n]
  show "matchChunkToTimestamp chunk segments i n
            = \<lparr>startTime = Num (timestampSeconds (segments ! j)),
               endTime = Num (endSeconds (segments ! j)),
               matched = True, matchDisplay = Some (timestampDisplay (segments ! j))\<rparr>"
    by simp
next
  assume a: "segments \<noteq> [] \<and> 0 < n
        \<and> (\<forall>k<length segments. \<not> fingerprints_match (chunkFingerprint chunk)
                       (segmentFingerprint (segment_text (segments ! k))))"
  then have "first_match_index chunk segments = length segments"
    by (intro first_match_index_none) auto
  with a matchChunkToTimestamp_unmatched[of chunk segments n i]
  show "matchChunkToTimestamp chunk segments i n
            = \<lparr>startTime = Num (nat \<lfloor>js_mult (js_div (of_nat i) (of_nat n))
                                         (of_nat (endSeconds (last segments)))\<rfloor>),
               endTime = Num (nat \<lfloor>js_mult (js_add (js_div (of_nat i) (of_nat n)) (js_div 1 (of_nat n)))
                                       (of_nat (endSeconds (last segments)))\<rfloor>),
               matched = False, matchDisplay = None\<rparr>"
    by simp
qed


theorem matchChunkToTimestamp_spec_witness:
  "matchChunkToTimestamp ''welcome back everyone'' example_segments 0 4
     = \<lparr>startTime = Num 10, endTime = Num 20, matched = True, matchDisplay = Some ''0:00''\<rparr>
   \<and> matchChunkToTimestamp ''something else entirely'' example_segments 1 4
     = \<lparr>startTime = Num 5, endTime = Num 10, matched = False, matchDisplay = None\<rparr>"
proof -
  have ne: "example_segments \<noteq> []" and len: "length example_segments = 2"
    by (simp_all add: example_segments_def)
  have m1: "fingerprints_match (chunkFingerprint ''welcome back everyone'')
              (segmentFingerprint (segment_text (example_segments ! 1)))"
    by code_simp
  have m0: "\<not> fingerprints_match (chunkFingerprint ''welcome back everyone'')
              (segmentFingerprint (segment_text (example_segments ! 0)))"
    by code_simp
  have first: "\<forall>k<1. \<not> fingerprints_match (chunkFingerprint ''welcome back everyone'')
              (segmentFingerprint (segment_text (example_segments ! k)))"
    using m0 by simp
  have seg1: "timestampSeconds (example_segments ! 1) = 10" "endSeconds (example_segments ! 1) = 20"
    "timestampDisplay (example_segments ! 1) = ''0:00''" "endSeconds (last example_segments) = 20"
    by (simp_all add: example_segments_def mk_segment_def)
  have a: "matchChunkToTimestamp ''welcome back everyone'' example_segments 0 4
     = \<lparr>startTime = Num 10, endTime = Num 20, matched = True, matchDisplay = Some ''0:00''\<rparr>"
    using matchChunkToTimestamp_spec [where chunk = "''welcome back everyone''"
        and segments = example_segments and j = 1 and i = 0 and n = 4] ne len m1 first seg1
    by simp
  have n0: "\<not> fingerprints_match (chunkFingerprint ''something else entirely'')
              (segmentFingerprint (segment_text (example_segments ! 0)))"
    and n1: "\<not> fingerprints_match (chunkFingerprint ''something else entirely'')
              (segmentFingerprint (segment_text (example_segments ! 1)))"
    by code_simp+
  have none: "\<forall>k<length example_segments. \<not> fingerprints_match (chunkFingerprint ''something else entirely'')
              (segmentFingerprint (segment_text (example_segments ! k)))"
    using n0 n1 len by (simp add: less_Suc_eq numeral_2_eq_2)
  have b: "matchChunkToTimestamp ''something else entirely'' example_segments 1 4
     = \<lparr>startTime = Num 5, endTime = Num 10, matched = False, matchDisplay = None\<rparr>"
    using matchChunkToTimestamp_spec [where chunk = "''something else entirely''"
        and segments = example_segments and i = 1 and n = 4] ne none seg1
    by (simp add: double_values)
  from a b show ?thesis by simp
qed


text \<open>
  The claim as written has both fingerprints built the same way. They are not: a timestamp
  inside the text stays in the chunk fingerprint and leaves the segment fingerprint, so a
  chunk does not even match a segment with its own text. The claim also has the end time
  computed from \<open>(chunkIndex + 1) / totalChunks\<close>; the code adds \<open>1 / totalChunks\<close> to the
  rounded position, and for chunk 4 of 6 over 18 seconds the results differ: 14, not 15.
\<close>

theorem fingerprints_differ_counterexample:
  "chunkFingerprint ''welcome 1:05 back everyone'' = ''welcome 1:05 back everyone''
   \<and> segmentFingerprint ''welcome 1:05 back everyone'' = ''welcome back everyone''
   \<and> matchChunkToTimestamp ''welcome 1:05 back everyone''
        [mk_segment ''welcome 1:05 back everyone'' 65 75] 0 1
      = \<lparr>startTime = Num 0, endTime = Num 75, matched = False, matchDisplay = None\<rparr>
   \<and> matchChunkToTimestamp ''something else entirely'' [mk_segment ''intro words here'' 0 18] 4 6
      = \<lparr>startTime = Num 12, endTime = Num 14, matched = False, matchDisplay = None\<rparr>
   \<and> claimed_endTime 4 6 18 = 15"
proof -
  have fp: "chunkFingerprint ''welcome 1:05 back everyone'' = ''welcome 1:05 back everyone''"
    "segmentFingerprint ''welcome 1:05 back everyone'' = ''welcome back everyone''"
    by code_simp+
  have f1: "first_match_index ''welcome 1:05 back everyone''
              [mk_segment ''welcome 1:05 back everyone'' 65 75]
            = length [mk_segment ''welcome 1:05 back everyone'' 65 75]"
    and f2: "first_match_index ''something else entirely'' [mk_segment ''intro words here'' 0 18]
            = length [mk_segment ''intro words here'' 0 18]"
    by code_simp+
  have m1: "matchChunkToTimestamp ''welcome 1:05 back everyone''
        [mk_segment ''welcome 1:05 back everyone'' 65 75] 0 1
      = \<lparr>startTime = Num 0, endTime = Num 75, matched = False, matchDisplay = None\<rparr>"
    using matchChunkToTimestamp_unmatched[OF f1, of 1 0]
    by (simp add: mk_segment_def double_values)
  have m2: "matchChunkToTimestamp ''something else entirely'' [mk_segment ''intro words here'' 0 18] 4 6
      = \<lparr>startTime = Num 12, endTime = Num 14, matched = False, matchDisplay = None\<rparr>"
    using matchChunkToTimestamp_unmatched[OF f2, of 6 4]
    by (simp add: mk_segment_def double_values)
  have c: "claimed_endTime 4 6 18 = 15"
    by (simp add: claimed_endTime_def double_values)
  from fp m1 m2 c show ?thesis by (intro conjI)
qed


subsection \<open>Start times along the chunk sequence\<close>

text \<open>
  Claim C5, as amended. With segments ordered by non-decreasing start time and a positive
  \<open>totalChunks\<close>, the start time of chunk \<open>i\<close> is at most the start time of chunk \<open>i + 1\<close>
  when neither chunk matches a segment (both are positioned proportionally), or when both
  match and the first matching segment of chunk \<open>i + 1\<close> is not earlier in the list than
  the first matching segment of chunk \<open>i\<close>.
\<close>

theorem startTime_monotone:
  assumes sorted: "sorted (map timestampSeconds segments)"
    and n: "0 < n"
    and cases: "(first_match_index c1 segments = length segments
                  \<and> first_match_index c2 segments = length segments)
              \<or> (first_match_index c1 segments \<le> first_match_index c2 segments
                  \<and> first_match_index c2 segments < length segments)"
  shows "\<exists>a b. startTime (matchChunkToTimestamp c1 segments i n) = Num a
             \<and> startTime (matchChunkToTimestamp c2 segments (i + 1) n) = Num b
             \<and> a \<le> b"
  using cases
proof
  assume u: "first_match_index c1 segments = length segments
                  \<and> first_match_index c2 segments = length segments"
  show ?thesis
    using u n proportional_start_mono[of i n "endSeconds (last segments)"]
    by (simp add: matchChunkToTimestamp_unmatched)
next
  assume m: "first_match_index c1 segments \<le> first_match_index c2 segments
                  \<and> first_match_index c2 segments < length segments"
  then have "timestampSeconds (segments ! first_match_index c1 segments)
           \<le> timestampSeconds (segments ! first_match_index c2 segments)"
    using sorted by (simp add: sorted_iff_nth_mono del: sorted_map) 
  then show ?thesis
    using m by (simp add: matchChunkToTimestamp_matched)
qed

theorem startTime_monotone_witness:
  "sorted (map timestampSeconds example_segments) \<and>
   (\<exists>a b. startTime (matchChunkToTimestamp ''intro words here'' example_segments 0 2) = Num a
        \<and> startTime (matchChunkToTimestamp ''welcome back everyone'' example_segments (0 + 1) 2) = Num b
        \<and> a \<le> b)"
proof -
  have s: "sorted (map timestampSeconds example_segments)"
    by (simp add: example_segments_def mk_segment_def)
  have n: "(0::nat) < 2" by simp
  have f1: "first_match_index ''intro words here'' example_segments = 0"
    and f2: "first_match_index ''welcome back everyone'' example_segments = 1"
    by code_simp+
  have c: "(first_match_index ''intro words here'' example_segments = length example_segments
             \<and> first_match_index ''welcome back everyone'' example_segments = length example_segments)
         \<or> (first_match_index ''intro words here'' example_segments
               \<le> first_match_index ''welcome back everyone'' example_segments
             \<and> first_match_index ''welcome back everyone'' example_segments < length example_segments)"
    using f1 f2 by (simp add: example_segments_def)
  from startTime_monotone [OF s n c, of 0] s show ?thesis by simp
qed


text \<open>
  In general the start times are not monotone: chunk 0 matches the second segment (start 10)
  and the unmatched chunk 1 of 4 is positioned at a quarter of the duration (start 5).
\<close>

theorem startTime_decreases_counterexample:
  "sorted (map timestampSeconds example_segments)
   \<and> startTime (matchChunkToTimestamp ''welcome back everyone'' example_segments 0 4) = Num 10
   \<and> startTime (matchChunkToTimestamp ''something else entirely'' example_segments 1 4) = Num 5"
proof -
  have s: "sorted (map timestampSeconds example_segments)"
    by (simp add: example_segments_def mk_segment_def)
  have f1: "first_match_index ''welcome back everyone'' example_segments = 1"
    and f2: "first_match_index ''something else entirely'' example_segments = length example_segments"
    by code_simp+
  have "first_match_index ''welcome back everyone'' example_segments < length example_segments"
    using f1 by (simp add: example_segments_def)
  from matchChunkToTimestamp_matched[OF this, of 0 4]
  have "startTime (matchChunkToTimestamp ''welcome back everyone'' example_segments 0 4)
          = Num (timestampSeconds (example_segments ! 1))"
    by (simp add: f1)
  then have a: "startTime (matchChunkToTimestamp ''welcome back everyone'' example_segments 0 4) = Num 10"
    by (simp add: example_segments_def mk_segment_def)
  have b: "startTime (matchChunkToTimestamp ''something else entirely'' example_segments 1 4) = Num 5"
    using matchChunkToTimestamp_unmatched[OF f2, of 4 1]
    by (simp add: example_segments_def mk_segment_def double_values)
  from s a b show ?thesis by (intro conjI)
qed

section \<open>Properties of chunking\<close>



















subsection \<open>The chunks that are emitted\<close>





section \<open>Properties of chunk storage\<close>

lemma dom_upsert: "dom (upsert index batch) = dom index \<union> vector_id ` set batch"
  unfolding upsert_def by (induction batch arbitrary: index) auto

lemma dom_foldl_upsert:
  "dom (foldl upsert index bs) = dom index \<union> vector_id ` set (concat bs)"
  by (induction bs arbitrary: index) (auto simp: dom_upsert)

lemma concat_batches: "concat (batches xs) = xs"
proof (induction xs rule: batches.induct)
  case 1
  show ?case by simp
next
  case (2 x xs)
  have "take 100 (x # xs) = x # take 99 xs" by (simp add: take_Cons')
  with 2 show ?case by simp
qed

lemma dom_storeToPinecone:
  "dom (storeToPinecone now creator video chunks index)
     = dom index \<union> (\<lambda>c. vectorId creator video (chunk_index c)) ` set chunks"
proof -
  have "vector_id ` set (map (toVector now creator video) chunks)
      = (\<lambda>c. vectorId creator video (chunk_index c)) ` set chunks"
    by (simp add: image_image toVector_def)
  then show ?thesis
    by (simp add: storeToPinecone_def dom_foldl_upsert concat_batches)
qed

lemma chunk_identity_toDocument:
  "chunk_identity (toDocument now creator video title url thumbnail segments n c)
     = (creator, video, chunk_index c)"
  by (simp add: chunk_identity_def toDocument_def Let_def)


lemma example_embedded:
  "embedChunks example_embedding None 0 example_documents =
     Inr [\<lparr>chunk_text = ''welcome back everyone'', embedding = [21, 1], chunk_index = 0,
           chunk_videoTitle = None, chunk_startTime = Some 10, chunk_endTime = Some 20\<rparr>,
          \<lparr>chunk_text = ''something else entirely'', embedding = [23, 1], chunk_index = 1,
           chunk_videoTitle = None, chunk_startTime = Some 5, chunk_endTime = Some 10\<rparr>]"
  by code_simp

lemma example_runs:
  "storeTranscriptChunks example_embedding 1 ''c1'' ''v1'' example_documents
     None None None example_segments empty_stores = Inr ingested_once"
  "storeTranscriptChunks example_embedding 2 ''c1'' ''v1'' example_documents
     None None None example_segments ingested_once = Inr ingested_twice"
proof -
  have ne: "example_documents \<noteq> []" by (simp add: example_documents_def)
  show "storeTranscriptChunks example_embedding 1 ''c1'' ''v1'' example_documents
     None None None example_segments empty_stores = Inr ingested_once"
    unfolding ingested_once_def
    by (simp add: storeTranscriptChunks_def example_embedded ne)
  show "storeTranscriptChunks example_embedding 2 ''c1'' ''v1'' example_documents
     None None None example_segments ingested_once = Inr ingested_twice"
    unfolding ingested_twice_def
    by (simp add: storeTranscriptChunks_def example_embedded ne)
qed

lemma example_identities:
  "map chunk_identity (transcript_chunks ingested_once) = [(''c1'', ''v1'', 0), (''c1'', ''v1'', 1)]"
  "map chunk_identity (transcript_chunks ingested_twice)
     = [(''c1'', ''v1'', 0), (''c1'', ''v1'', 1), (''c1'', ''v1'', 0), (''c1'', ''v1'', 1)]"
proof -
  have ne: "example_documents \<noteq> []" by (simp add: example_documents_def)
  show "map chunk_identity (transcript_chunks ingested_once) = [(''c1'', ''v1'', 0), (''c1'', ''v1'', 1)]"
    by (simp add: ingested_once_def storeTranscriptChunks_def example_embedded ne
        chunk_identity_toDocument empty_stores_def)
  show "map chunk_identity (transcript_chunks ingested_twice)
     = [(''c1'', ''v1'', 0), (''c1'', ''v1'', 1), (''c1'', ''v1'', 0), (''c1'', ''v1'', 1)]"
    by (simp add: ingested_twice_def ingested_once_def storeTranscriptChunks_def example_embedded ne
        chunk_identity_toDocument empty_stores_def)
qed

subsection \<open>Ingesting the same video again\<close>

text \<open>
  Claim C6. The claim asks that a second ingestion of the same creator, video and chunk
  index replaces the records of the first in both stores. The code does so in the vector
  index only: the record id is \<open>creatorId_videoId_chunkIndex\<close>, so the second upsert writes
  over the first and the set of ids does not change. The document collection receives the
  documents of the second run through \<open>insertMany\<close> in addition to those of the first: the
  same chunk identities are stored twice.
\<close>

theorem reingestion_duplicates_documents:
  assumes r1: "storeTranscriptChunks createEmbedding now1 creator video chunks title url thumbnail segments s0 = Inr s1"
    and r2: "storeTranscriptChunks createEmbedding now2 creator video chunks title url thumbnail segments s1 = Inr s2"
  shows "dom (pinecone s2) = dom (pinecone s1)
       \<and> (\<exists>added1 added2.
             transcript_chunks s1 = transcript_chunks s0 @ added1
           \<and> transcript_chunks s2 = transcript_chunks s0 @ added1 @ added2
           \<and> added1 \<noteq> []
           \<and> map chunk_identity added2 = map chunk_identity added1
           \<and> (\<forall>d\<in>set added1. vectorId creator video (doc_chunkIndex d) \<in> dom (pinecone s1)))"
proof -
  from r1 obtain cs where cs: "embedChunks createEmbedding title 0 chunks = Inr cs" "cs \<noteq> []"
    by (auto simp: storeTranscriptChunks_def split: if_splits sum.splits)
  let ?docs = "\<lambda>now. map (toDocument now creator video title url thumbnail segments (length cs)) cs"
  have s1: "s1 = \<lparr>pinecone = storeToPinecone now1 creator video cs (pinecone s0),
                   transcript_chunks = transcript_chunks s0 @ ?docs now1\<rparr>"
    using r1 cs by (auto simp: storeTranscriptChunks_def split: if_splits)
  have s2: "s2 = \<lparr>pinecone = storeToPinecone now2 creator video cs (pinecone s1),
                   transcript_chunks = transcript_chunks s1 @ ?docs now2\<rparr>"
    using r2 cs by (auto simp: storeTranscriptChunks_def split: if_splits)
  have d1: "dom (pinecone s1) = dom (pinecone s0) \<union> (\<lambda>c. vectorId creator video (chunk_index c)) ` set cs"
    by (simp add: s1 dom_storeToPinecone)
  have d2: "dom (pinecone s2) = dom (pinecone s1) \<union> (\<lambda>c. vectorId creator video (chunk_index c)) ` set cs"
    by (subst s2) (simp add: dom_storeToPinecone)
  have "dom (pinecone s2) = dom (pinecone s1)" using d1 d2 by auto
  moreover have "transcript_chunks s1 = transcript_chunks s0 @ ?docs now1" by (simp add: s1)
  moreover have "transcript_chunks s2 = transcript_chunks s0 @ ?docs now1 @ ?docs now2"
    by (subst s2) (simp add: s1)
  moreover have "?docs now1 \<noteq> []" using cs(2) by simp
  moreover have "map chunk_identity (?docs now2) = map chunk_identity (?docs now1)"
    by (simp add: chunk_identity_toDocument comp_def)
  moreover have "\<forall>d\<in>set (?docs now1). vectorId creator video (doc_chunkIndex d) \<in> dom (pinecone s1)"
    using d1 by (auto simp: toDocument_def Let_def)
  ultimately show ?thesis by blast
qed


theorem reingestion_duplicates_documents_witness:
  "dom (pinecone ingested_twice) = dom (pinecone ingested_once)
   \<and> map chunk_identity (transcript_chunks ingested_once) = [(''c1'', ''v1'', 0), (''c1'', ''v1'', 1)]
   \<and> map chunk_identity (transcript_chunks ingested_twice)
     = [(''c1'', ''v1'', 0), (''c1'', ''v1'', 1), (''c1'', ''v1'', 0), (''c1'', ''v1'', 1)]"
  using reingestion_duplicates_documents [OF example_runs] example_identities by blast

section \<open>Properties of the ingestion job\<close>

lemma jobs_writeStatus [simp]: "jobs (writeStatus j creator st a b c e w) = jobs w"
  by (simp add: writeStatus_def Let_def split: option.splits)

lemma channel_keys_writeStatus [simp]: "channel_keys (writeStatus j creator st a b c e w) = channel_keys w"
  by (simp add: writeStatus_def Let_def split: option.splits)

lemma channel_keys_job_set [simp]: "channel_keys (job_set j job w) = channel_keys w"
  by (simp add: job_set_def)

lemma jobs_job_set [simp]: "jobs (job_set j job w) j = Some job"
  by (simp add: job_set_def)

lemma channel_keys_startProcessing [simp]: "channel_keys (startProcessing j creator w) = channel_keys w"
  by (simp add: startProcessing_def split: option.splits)

lemma creators_writeStatus [simp]: "creators (writeStatus j creator st a b c e w) = creators w"
  by (simp add: writeStatus_def Let_def split: option.splits)

lemma creators_job_set [simp]: "creators (job_set j job w) = creators w"
  by (simp add: job_set_def)

lemma creators_startProcessing [simp]: "creators (startProcessing j creator w) = creators w"
  by (simp add: startProcessing_def split: option.splits)

lemma channel_keys_processVideosAsync:
  "channel_keys (snd (processVideosAsync env j creator custom w)) = channel_keys w"
  by (simp add: processVideosAsync_def Let_def split: option.splits prod.splits sum.splits)

lemma handler_takes_no_lock:
  "postCreator valid_url r w = (resp, w') \<Longrightarrow>
     processing_records w' = processing_records w \<and> channel_keys w' = channel_keys w"
  by (auto simp: postCreator_def schema_ok_def Let_def job_set_def split: if_splits option.splits)

text \<open>
  Whenever a request is accepted, the same request sent again is accepted as well as long
  as the first job has not written its status.
\<close>

lemma repeated_request_accepted:
  assumes "postCreator valid_url r w = (Accepted j1 c1, w1)"
  shows "\<exists>w2. postCreator valid_url (r\<lparr>fresh_jobId := j2\<rparr>) w1 = (Accepted j2 c1, w2)"
proof (cases "find (\<lambda>c. ownedByChannelId c = Some (req_channelId r)) (creators w)")
  case None
  with assms have w1: "creators w1 = creators w @ [\<lparr>creator_id = fresh_creatorId r, creator_name = req_channelHandle r,
                                       setupComplete = False, ownedByTeamId = Some (req_teamId r),
                                       ownedByChannelId = Some (req_channelId r)\<rparr>]"
    and "teams w1 = teams w" "processing_records w1 = processing_records w" "c1 = fresh_creatorId r"
    by (auto simp: postCreator_def schema_ok_def Let_def job_set_def split: if_splits option.splits)
  with assms None show ?thesis
    by (auto simp: postCreator_def schema_ok_def Let_def job_set_def find_append truthy_def split: if_splits option.splits)
next
  case (Some c)
  with assms have "creators w1 = creators w"
    and "teams w1 = teams w" "processing_records w1 = processing_records w" "c1 = creator_id c"
    by (auto simp: postCreator_def schema_ok_def Let_def job_set_def split: if_splits option.splits)
  with assms Some show ?thesis
    by (auto simp: postCreator_def schema_ok_def Let_def job_set_def split: if_splits option.splits)
qed

lemma eligibility_error_generic:
  "eligibility_error videos channelInfo custom = Some m \<Longrightarrow> m = generic_message"
  by (auto simp: eligibility_error_def Let_def split: if_splits)

lemma eligibility_error_rejects:
  assumes "filter (\<lambda>v. hasCaptions v \<and> valid_duration v) videos = []"
    and "\<not> long_enough custom" "\<not> long_enough (channelDescription channelInfo)"
    and "\<not> long_enough (wikipediaSummary channelInfo)"
  shows "eligibility_error videos channelInfo custom = Some generic_message"
  using assms by (simp add: eligibility_error_def Let_def)

lemma process_videos_status:
  assumes "process_videos pv i videos (p, c, f, job, writes) = (p', c', f', job', writes')"
    and "status job = Processing" "\<forall>x\<in>set writes. status x = Processing"
  shows "status job' = Processing \<and> (\<forall>x\<in>set writes'. status x = Processing)"
  using assms
proof (induction videos arbitrary: i p c f job writes)
  case Nil
  then show ?case by simp
next
  case (Cons v vs)
  show ?case
  proof (cases "durationMinutes v < 2 \<or> durationMinutes v > 25")
    case True
    with Cons.prems(1) have "process_videos pv (i + 1) vs (p, c, f + 1, job, writes) = (p', c', f', job', writes')"
      by simp
    from Cons.IH[OF this Cons.prems(2) Cons.prems(3)] show ?thesis .
  next
    case False
    show ?thesis
    proof (cases "\<exists>n. pv (video_id v) = Stored n \<and> n \<noteq> 0")
      case True
      then obtain n where n: "pv (video_id v) = Stored n" "n \<noteq> 0" by auto
      let ?job = "job\<lparr>progress_current := i + 1\<rparr>"
      from Cons.prems(1) False n
      have "process_videos pv (i + 1) vs (p + 1, c + n, f, ?job, writes @ [?job]) = (p', c', f', job', writes')"
        by simp
      moreover have "status ?job = Processing" using Cons.prems(2) by simp
      moreover have "\<forall>x\<in>set (writes @ [?job]). status x = Processing"
        using Cons.prems(2,3) by simp
      ultimately show ?thesis by (rule Cons.IH)
    next
      case no: False
      with Cons.prems(1) False
      have "process_videos pv (i + 1) vs (p, c, f + 1, job, writes) = (p', c', f', job', writes')"
        by (cases "pv (video_id v)") auto
      from Cons.IH[OF this Cons.prems(2) Cons.prems(3)] show ?thesis .
    qed
  qed
qed

lemma run_job_status:
  assumes "run_job env custom creator job w = (res, job', writes)" "status job = Processing"
  shows "\<forall>x\<in>set writes. status x = Processing"
proof (cases "getChannelVideos env")
  case (Inl e)
  with assms show ?thesis by (simp add: run_job_def)
next
  case (Inr videos)
  let ?job1 = "job\<lparr>progress_total := length videos\<rparr>"
  have j1: "status ?job1 = Processing" using assms(2) by simp
  show ?thesis
  proof (cases "getChannelInfo env")
    case (Inl e)
    with assms Inr show ?thesis by (auto simp: run_job_def Let_def)
  next
    case info: (Inr channelInfo)
    show ?thesis
    proof (cases "eligibility_error videos channelInfo custom")
      case (Some m)
      with assms Inr info show ?thesis by (auto simp: run_job_def Let_def)
    next
      case None
      obtain p c f job2 ws where pv:
        "process_videos (processVideo env) 0 videos (0, 0, 0, ?job1, [?job1]) = (p, c, f, job2, ws)"
        by (metis prod_cases5)
      have "\<forall>x\<in>set [?job1]. status x = Processing" using j1 by simp
      from process_videos_status[OF pv j1 this]
      have ws: "\<forall>x\<in>set ws. status x = Processing" by simp
      have "writes = ws"
        using assms(1) Inr info None pv
        by (auto simp: run_job_def Let_def split: if_splits option.splits)
      with ws show ?thesis by simp
    qed
  qed
qed

lemma processVideosAsync_writes:
  assumes "jobs w j = Some job" "i + 1 < length (fst (processVideosAsync env j creator custom w))"
  shows "status (fst (processVideosAsync env j creator custom w) ! i) = Processing"
proof -
  let ?job0 = "job\<lparr>status := Processing\<rparr>"
  obtain res job2 ws where rj: "run_job env custom creator ?job0 (startProcessing j creator w) = (res, job2, ws)"
    by (metis prod_cases3)
  have ws: "\<forall>x\<in>set ws. status x = Processing"
    by (rule run_job_status[OF rj]) simp
  obtain final where writes: "fst (processVideosAsync env j creator custom w) = [?job0] @ ws @ [final]"
    using assms(1) rj by (cases res) (auto simp: processVideosAsync_def Let_def)
  have "i < length ([?job0] @ ws)" using assms(2) writes by simp
  then have "([?job0] @ ws @ [final]) ! i = ([?job0] @ ws) ! i"
    by (metis append_assoc nth_append)
  moreover have "\<forall>x\<in>set ([?job0] @ ws). status x = Processing" using ws by simp
  ultimately show ?thesis
    using writes \<open>i < length ([?job0] @ ws)\<close> by (metis nth_mem)
qed

lemmas example_defs = postCreator_def schema_ok_def accepts_https_def startProcessing_def writeStatus_def upsertProcessing_def job_set_def
  truthy_def example_world_def example_request_def Let_def

lemma sequential_requests_rejected:
  "fst (run accepts_https [Post (example_request ''job1''), Start ''job1'' ''creator1'',
             Post (example_request ''job2'')] example_world)
    = [Accepted ''job1'' ''creator1'',
       Rejected 409 ''This channel is already being processed. Please wait for the current job to complete.'']"
  by (simp add: example_defs)

lemma generic_message_mentions:
  "str_includes generic_message ''captions''" "str_includes generic_message ''2-25''"
  by code_simp+

lemma queued_job:
  "jobs queued_world ''job1''
     = Some \<lparr>jobId = ''job1'', job_creatorId = ''creator1'',
             job_channelUrl = ''https://www.youtube.com/@creator'', status = Queued,
             progress_current = 0, progress_total = 0, result = None, error = None\<rparr>"
  by (simp add: queued_world_def example_defs)

lemma queued_creators:
  "creators queued_world
     = [\<lparr>creator_id = ''creator1'', creator_name = ''creator'', setupComplete = False,
         ownedByTeamId = Some ''team1'', ownedByChannelId = Some ''chan1''\<rparr>]"
  by (simp add: queued_world_def example_defs)

lemma specific_message_example:
  "specific_message 0 1 = ''Channel not eligible: Found 1 video(s) with valid duration (2-25 min), but NONE have captions/transcripts. YouTube auto-generates captions after 10-30 minutes. Please enable captions or provide a custom description.''"
  by code_simp

subsection \<open>Two requests for one channel\<close>

text \<open>
  Claim C1. The claim asks that of two concurrent requests for the same channel and team
  only one job becomes \<open>processing\<close> and the other request is answered 409, by a lock taken
  before the job starts. The handler instead looks for a \<open>processing\<close> record, which the
  background job of an accepted request writes only later, and \<open>markChannelProcessing\<close> is
  never called. When the second request is handled before the first job has written its
  record, both requests are accepted, both jobs become \<open>processing\<close>, the collection holds
  two \<open>processing\<close> records for the pair, and no lock key exists.
\<close>

theorem concurrent_requests_both_processing:
  assumes "valid_url ''https://www.youtube.com/@creator''"
  shows "(let (responses, w) = run valid_url
                [Post (example_request ''job1''), Post (example_request ''job2''),
                 Start ''job1'' ''creator1'', Start ''job2'' ''creator1''] example_world
    in responses = [Accepted ''job1'' ''creator1'', Accepted ''job2'' ''creator1'']
       \<and> map_option status (jobs w ''job1'') = Some Processing
       \<and> map_option status (jobs w ''job2'') = Some Processing
       \<and> map (\<lambda>p. (proc_channelId p, proc_teamId p, proc_jobId p, proc_status p)) (processing_records w)
           = [(''chan1'', ''team1'', ''job1'', Processing), (''chan1'', ''team1'', ''job2'', Processing)]
       \<and> channel_keys w (''chan1'', ''team1'') = None)"
  using assms
  by (simp add: postCreator_def schema_ok_def startProcessing_def writeStatus_def upsertProcessing_def
      job_set_def truthy_def example_world_def example_request_def Let_def)

theorem concurrent_requests_both_processing_witness:
  "accepts_https ''https://www.youtube.com/@creator''
   \<and> fst (run accepts_https
           [Post (example_request ''job1''), Post (example_request ''job2''),
            Start ''job1'' ''creator1'', Start ''job2'' ''creator1''] example_world)
       = [Accepted ''job1'' ''creator1'', Accepted ''job2'' ''creator1'']
   \<and> map proc_status (processing_records (snd (run accepts_https
           [Post (example_request ''job1''), Post (example_request ''job2''),
            Start ''job1'' ''creator1'', Start ''job2'' ''creator1''] example_world)))
       = [Processing, Processing]"
proof -
  have u: "accepts_https ''https://www.youtube.com/@creator''"
    by (simp add: accepts_https_def)
  from concurrent_requests_both_processing [where valid_url = accepts_https, OF u] u show ?thesis
    by (auto simp: Let_def split: prod.splits)
qed

subsection \<open>The eligibility gate\<close>

text \<open>
  Claim C2. When no fetched video has captions and a duration of 2 to 25 minutes and none
  of the three descriptions has more than 50 characters, the job ends \<open>failed\<close> and its error
  mentions the captions and the 2-25 minutes. The claim further asks for a message that tells
  which condition was unmet. The code throws the same general message in every such case:
  the first check throws before the check that builds the specific messages is reached.
\<close>

theorem eligibility_failure_message:
  assumes job: "jobs w j = Some job"
    and videos: "getChannelVideos env = Inr videos"
    and info: "getChannelInfo env = Inr channelInfo"
    and none: "filter (\<lambda>v. hasCaptions v \<and> valid_duration v) videos = []"
    and descr: "\<not> long_enough custom" "\<not> long_enough (channelDescription channelInfo)"
               "\<not> long_enough (wikipediaSummary channelInfo)"
  shows "map_option status (jobs (snd (processVideosAsync env j creator custom w)) j) = Some Failed
       \<and> map_option error (jobs (snd (processVideosAsync env j creator custom w)) j)
           = Some (Some generic_message)
       \<and> str_includes generic_message ''captions'' \<and> str_includes generic_message ''2-25''"
proof -
  have e: "eligibility_error videos channelInfo custom = Some generic_message"
    using none descr by (rule eligibility_error_rejects)
  have "\<And>job0 w1. run_job env custom creator job0 w1
      = (Inl generic_message, job0\<lparr>progress_total := length videos\<rparr>, [job0\<lparr>progress_total := length videos\<rparr>])"
    by (simp add: run_job_def videos info e Let_def)
  then show ?thesis
    using job generic_message_mentions by (simp add: processVideosAsync_def Let_def)
qed


theorem eligibility_failure_message_witness:
  "map_option error (jobs (snd (processVideosAsync (example_environment [video_without_captions])
                                  ''job1'' ''creator1'' None queued_world)) ''job1'')
     = Some (Some generic_message)
   \<and> map_option error (jobs (snd (processVideosAsync (example_environment [video_too_long])
                                  ''job1'' ''creator1'' None queued_world)) ''job1'')
     = Some (Some generic_message)
   \<and> generic_message \<noteq> specific_message 0 1"
proof -
  have d: "\<not> long_enough None"
    "\<not> long_enough (channelDescription \<lparr>channelDescription = None, wikipediaSummary = None\<rparr>)"
    "\<not> long_enough (wikipediaSummary \<lparr>channelDescription = None, wikipediaSummary = None\<rparr>)"
    by (simp_all add: long_enough_def)
  have v1: "getChannelVideos (example_environment [video_without_captions]) = Inr [video_without_captions]"
    and i1: "getChannelInfo (example_environment [video_without_captions])
               = Inr \<lparr>channelDescription = None, wikipediaSummary = None\<rparr>"
    and n1: "filter (\<lambda>v. hasCaptions v \<and> valid_duration v) [video_without_captions] = []"
    by (simp_all add: example_environment_def video_without_captions_def)
  have v2: "getChannelVideos (example_environment [video_too_long]) = Inr [video_too_long]"
    and i2: "getChannelInfo (example_environment [video_too_long])
               = Inr \<lparr>channelDescription = None, wikipediaSummary = None\<rparr>"
    and n2: "filter (\<lambda>v. hasCaptions v \<and> valid_duration v) [video_too_long] = []"
    by (simp_all add: example_environment_def video_too_long_def valid_duration_def)
  have "generic_message \<noteq> specific_message 0 1"
    unfolding specific_message_example by (simp add: generic_message_def)
  with eligibility_failure_message [OF queued_job v1 i1 n1 d, of "''creator1''"]
       eligibility_failure_message [OF queued_job v2 i2 n2 d, of "''creator1''"]
  show ?thesis by simp
qed


subsection \<open>The 30 minute timeout\<close>

text \<open>
  Claim C3. The claim asks that a job that runs into the timeout becomes \<open>failed\<close> with an
  error about the time limit and that the lock is released. In the code the timeout only
  makes the wrapper log the error: when the timer fires after the first write of a job
  and before its last, the job record is still \<open>processing\<close>, the job runs on to the same end
  as without the timer, and no lock key is touched.
\<close>

theorem timeout_leaves_job_processing:
  assumes job: "jobs w j = Some job"
    and k: "0 < k" "k < length (fst (processVideosAsync env j creator custom w))"
  shows "logged (processVideosAsyncWithTimeout env j creator custom (Some k) w) = Some timeout_message
       \<and> map_option status (job_at_timeout (processVideosAsyncWithTimeout env j creator custom (Some k) w))
           = Some Processing
       \<and> final_world (processVideosAsyncWithTimeout env j creator custom (Some k) w)
           = final_world (processVideosAsyncWithTimeout env j creator custom None w)
       \<and> channel_keys (final_world (processVideosAsyncWithTimeout env j creator custom (Some k) w))
           = channel_keys w"
proof -
  obtain writes w' where p: "processVideosAsync env j creator custom w = (writes, w')"
    by (cases "processVideosAsync env j creator custom w")
  have "k - 1 + 1 < length (fst (processVideosAsync env j creator custom w))" using k by simp
  from processVideosAsync_writes[OF job this]
  have "status (writes ! (k - 1)) = Processing" using p by simp
  moreover have "channel_keys w' = channel_keys w"
    using channel_keys_processVideosAsync[of env j creator custom w] p by simp
  ultimately show ?thesis
    using k p by (simp add: processVideosAsyncWithTimeout_def)
qed


theorem timeout_leaves_job_processing_witness:
  "map_option status (job_at_timeout (processVideosAsyncWithTimeout (example_environment [video_eligible])
       ''job1'' ''creator1'' None (Some 2) queued_world)) = Some Processing
   \<and> logged (processVideosAsyncWithTimeout (example_environment [video_eligible])
       ''job1'' ''creator1'' None (Some 2) queued_world) = Some timeout_message
   \<and> map_option status (jobs (final_world (processVideosAsyncWithTimeout (example_environment [video_eligible])
       ''job1'' ''creator1'' None (Some 2) queued_world)) ''job1'') = Some Completed
   \<and> map_option error (jobs (final_world (processVideosAsyncWithTimeout (example_environment [video_eligible])
       ''job1'' ''creator1'' None (Some 2) queued_world)) ''job1'') = Some None"
proof -
  have len: "length (fst (processVideosAsync (example_environment [video_eligible])
                       ''job1'' ''creator1'' None queued_world)) = 4"
    by (simp add: processVideosAsync_def run_job_def queued_job example_environment_def
        video_eligible_def eligibility_error_def valid_duration_def long_enough_def Let_def
        revalidation_error_def queued_creators truthy_def)
  have k: "(0::nat) < 2" "2 < length (fst (processVideosAsync (example_environment [video_eligible])
                       ''job1'' ''creator1'' None queued_world))"
    using len by simp_all
  have fin: "map_option status (jobs (snd (processVideosAsync (example_environment [video_eligible])
                       ''job1'' ''creator1'' None queued_world)) ''job1'') = Some Completed
     \<and> map_option error (jobs (snd (processVideosAsync (example_environment [video_eligible])
                       ''job1'' ''creator1'' None queued_world)) ''job1'') = Some None"
    by (simp add: processVideosAsync_def run_job_def queued_job example_environment_def
        video_eligible_def eligibility_error_def valid_duration_def long_enough_def Let_def
        revalidation_error_def queued_creators truthy_def)
  have "final_world (processVideosAsyncWithTimeout (example_environment [video_eligible])
       ''job1'' ''creator1'' None None queued_world)
      = snd (processVideosAsync (example_environment [video_eligible]) ''job1'' ''creator1'' None queued_world)"
    by (simp add: processVideosAsyncWithTimeout_def split: prod.splits)
  with timeout_leaves_job_processing [OF queued_job k] fin show ?thesis by simp
qed

end
